theory Spec2Isabelle
  imports Complex_Main "HOL-Library.Word"
begin

section \<open>Machine-level conventions\<close>

text \<open>
  The sources are C. A \<^verbatim>\<open>size_t\<close> is modelled as a natural number; where the source
  computes a sum or a difference of \<^verbatim>\<open>size_t\<close> values the wrap-around of the 64-bit
  unsigned type is written out (\<open>size_add\<close>, \<open>size_sub\<close>). A pointer that the source tests
  against \<^verbatim>\<open>NULL\<close> is an \<open>option\<close>. A C string is the list of the characters before
  its terminating NUL byte. The width of \<^verbatim>\<open>size_t\<close> is that of the usual 64-bit targets;
  nothing below depends on the exact width, only on the type being unsigned.
\<close>

definition SIZE_MOD :: nat where
  "SIZE_MOD = 2 ^ 64"

definition size_add :: "nat \<Rightarrow> nat \<Rightarrow> nat" where
  "size_add a b = (a + b) mod SIZE_MOD"

definition size_sub :: "nat \<Rightarrow> nat \<Rightarrow> nat" where
  "size_sub a b = (if b \<le> a then a - b else (a + SIZE_MOD - b) mod SIZE_MOD)"

section \<open>password.h: options and limits\<close>

text \<open>
  The header that \<^verbatim>\<open>password.c\<close> includes as \<^verbatim>\<open>password.h\<close> is the file \<^verbatim>\<open>power.h\<close> of the
  repository, which names itself \<^verbatim>\<open>password.h\<close>.
\<close>

definition MIN_PASSWORD_LENGTH :: nat where
  "MIN_PASSWORD_LENGTH = 8"

definition MAX_PASSWORD_LENGTH :: nat where
  "MAX_PASSWORD_LENGTH = 128"

record CharSetConfig =
  lowercase :: bool
  uppercase :: bool
  numbers :: bool
  special :: bool
  avoid_ambiguous :: bool

record PasswordOptions =
  length_opt :: nat
  charset :: CharSetConfig
  require_all_types :: bool
  min_numbers :: nat
  min_special :: nat

section \<open>password.c: validate\_options\<close>

definition selected_types :: "CharSetConfig \<Rightarrow> nat" where
  "selected_types cs =
     (if lowercase cs then 1 else 0) + (if uppercase cs then 1 else 0) +
     (if numbers cs then 1 else 0) + (if special cs then 1 else 0)"

definition validate_options :: "PasswordOptions option \<Rightarrow> bool" where
  "validate_options p =
     (case p of
        None \<Rightarrow> False
      | Some opts \<Rightarrow>
          if length_opt opts < MIN_PASSWORD_LENGTH \<or> length_opt opts > MAX_PASSWORD_LENGTH
          then False
          else if \<not> lowercase (charset opts) \<and> \<not> uppercase (charset opts) \<and>
                  \<not> numbers (charset opts) \<and> \<not> special (charset opts)
          then False
          else if require_all_types opts \<and> length_opt opts < selected_types (charset opts)
          then False
          else
            let max_possible_numbers = (if numbers (charset opts) then length_opt opts else 0);
                max_possible_special = (if special (charset opts) then length_opt opts else 0)
            in if min_numbers opts > max_possible_numbers \<or>
                  min_special opts > max_possible_special
               then False
               else if size_add (min_numbers opts) (min_special opts) > length_opt opts
               then False
               else True)"

section \<open>config.h: character sets and thresholds\<close>

definition lowercase_chars :: string where
  "lowercase_chars = ''abcdefghijklmnopqrstuvwxyz''"

definition uppercase_chars :: string where
  "uppercase_chars = ''ABCDEFGHIJKLMNOPQRSTUVWXYZ''"

definition number_chars :: string where
  "number_chars = ''0123456789''"

definition special_chars :: string where
  "special_chars = ''!@#$%^&*''"

definition ambiguous_chars :: string where
  "ambiguous_chars = ''lI1O0''"

definition STRENGTH_THRESHOLD_VERY_WEAK :: int where
  "STRENGTH_THRESHOLD_VERY_WEAK = 20"

definition STRENGTH_THRESHOLD_WEAK :: int where
  "STRENGTH_THRESHOLD_WEAK = 40"

definition STRENGTH_THRESHOLD_FAIR :: int where
  "STRENGTH_THRESHOLD_FAIR = 60"

definition STRENGTH_THRESHOLD_GOOD :: int where
  "STRENGTH_THRESHOLD_GOOD = 75"

definition STRENGTH_THRESHOLD_STRONG :: int where
  "STRENGTH_THRESHOLD_STRONG = 90"

section \<open>The environment of a call\<close>

text \<open>
  Two things outside the program decide how a call runs. The random source hands out one
  byte per request (\<^verbatim>\<open>get_random_bytes\<close>, or the \<^verbatim>\<open>random_range(0, 255)\<close> fallback cast
  to \<^verbatim>\<open>unsigned char\<close>: either way one byte); it is a stream \<open>rnd\<close> read at a cursor
  that each draw advances. The allocator may refuse a request; every allocation site of
  the modelled functions runs at most once per call, so an oracle from sites to outcomes
  covers every behaviour of the heap.
\<close>

type_synonym byte = "8 word"

type_synonym random_source = "nat \<Rightarrow> byte"

datatype alloc_site =
  PoolAlloc | FilteredAlloc | BufferAlloc | ModifiableAlloc | PatternAlloc | StrdupAlloc

type_synonym heap_oracle = "alloc_site \<Rightarrow> bool"

section \<open>C library functions on strings\<close>

definition NUL :: char where
  "NUL = CHR 0x00"

text \<open>\<^verbatim>\<open>strchr(s, c) != NULL\<close>: the terminator counts as part of the string.\<close>

definition strchr_found :: "string \<Rightarrow> char \<Rightarrow> bool" where
  "strchr_found s c = (c \<in> set s \<or> c = NUL)"

section \<open>password.c: results and metadata\<close>

record PasswordResult =
  password :: "string option"
  length_res :: nat
  entropy :: real
  strength_score :: int
  strength :: "string option"

text \<open>\<^verbatim>\<open>PasswordResult result = {0};\<close>\<close>

definition zero_result :: PasswordResult where
  "zero_result = \<lparr>password = None, length_res = 0, entropy = 0, strength_score = 0,
     strength = None\<rparr>"

text \<open>
  \<^verbatim>\<open>DEFAULT_PASSWORD_LENGTH\<close> is defined as 12 in \<^verbatim>\<open>password.h\<close> and again as 16 in
  \<^verbatim>\<open>config.h\<close>, which \<^verbatim>\<open>password.c\<close> includes later; the later definition is the one in
  force. No property below depends on the default length.
\<close>

definition password_options_init :: PasswordOptions where
  "password_options_init =
     \<lparr>length_opt = 16,
      charset = \<lparr>lowercase = True, uppercase = True, numbers = True, special = True,
                 avoid_ambiguous = False\<rparr>,
      require_all_types = True, min_numbers = 1, min_special = 1\<rparr>"

text \<open>
  The loop \<^verbatim>\<open>for (c = ambiguous_chars; *c; c++) if (strchr(set, *c)) pool_size--;\<close>
  decrements once per ambiguous character that occurs in the category.
\<close>

definition ambiguous_in :: "string \<Rightarrow> nat" where
  "ambiguous_in char_set = length (filter (strchr_found char_set) ambiguous_chars)"

text \<open>
  Entropy and the score derived from it are \<^verbatim>\<open>double\<close> computations in the source. They
  are modelled over the reals (no rounding); no property below depends on their value.
  \<open>log2\<close> is the C library function.
\<close>

definition log2 :: "real \<Rightarrow> real" where
  "log2 x = log 2 x"

definition calculate_entropy :: "string option \<Rightarrow> PasswordOptions option \<Rightarrow> real" where
  "calculate_entropy pw options =
     (case (pw, options) of
        (Some p, Some opts) \<Rightarrow>
          let cs = charset opts;
              n1 = (if lowercase cs
                    then length lowercase_chars -
                         (if avoid_ambiguous cs then ambiguous_in lowercase_chars else 0)
                    else 0);
              n2 = (if uppercase cs
                    then n1 + length uppercase_chars -
                         (if avoid_ambiguous cs then ambiguous_in uppercase_chars else 0)
                    else n1);
              n3 = (if numbers cs
                    then n2 + length number_chars -
                         (if avoid_ambiguous cs then ambiguous_in number_chars else 0)
                    else n2);
              pool_size = (if special cs then n3 + length special_chars else n3)
          in if pool_size = 0 then 0
             else real (length p) * log2 (real pool_size)
      | _ \<Rightarrow> 0)"

text \<open>The cast \<^verbatim>\<open>(int)x\<close> of a \<^verbatim>\<open>double\<close> truncates towards zero.\<close>

definition c_trunc :: "real \<Rightarrow> int" where
  "c_trunc x = (if 0 \<le> x then \<lfloor>x\<rfloor> else \<lceil>x\<rceil>)"

definition score_of_entropy :: "real \<Rightarrow> int" where
  "score_of_entropy e =
     (let s0 = c_trunc ((e / 128) * 100);
          s1 = (if s0 > 100 then 100 else s0)
      in if s1 < 0 then 0 else s1)"

definition get_strength_category :: "int \<Rightarrow> string" where
  "get_strength_category sc =
     (if sc < STRENGTH_THRESHOLD_VERY_WEAK then ''Very Weak''
      else if sc < STRENGTH_THRESHOLD_WEAK then ''Weak''
      else if sc < STRENGTH_THRESHOLD_FAIR then ''Fair''
      else if sc < STRENGTH_THRESHOLD_GOOD then ''Good''
      else if sc < STRENGTH_THRESHOLD_STRONG then ''Strong''
      else ''Very Strong'')"

text \<open>
  The block under \<^verbatim>\<open>/* Calculate metadata */\<close>, the same in both generators: entropy,
  score and label for the finished buffer \<open>pw\<close>, whose length \<open>n\<close> was stored before.
\<close>

definition attach_metadata :: "string \<Rightarrow> nat \<Rightarrow> PasswordOptions \<Rightarrow> PasswordResult" where
  "attach_metadata pw n opts =
     (let e = calculate_entropy (Some pw) (Some opts);
          sc = score_of_entropy e
      in \<lparr>password = Some pw, length_res = n, entropy = e, strength_score = sc,
           strength = Some (get_strength_category sc)\<rparr>)"

text \<open>
  \<^verbatim>\<open>free_password_result\<close> wipes and releases the buffer and resets every field.
\<close>

definition free_password_result :: "PasswordResult \<Rightarrow> PasswordResult" where
  "free_password_result r =
     r\<lparr>password := None, length_res := 0, entropy := 0, strength_score := 0,
       strength := None\<rparr>"

section \<open>password.c: internal helpers\<close>

text \<open>
  \<^verbatim>\<open>get_random_char_from_set\<close> returns the character and the advanced cursor. Every call
  site passes \<^verbatim>\<open>strlen(char_set)\<close> as \<open>set_size\<close>, so the index is within the set.
\<close>

definition get_random_char_from_set ::
  "random_source \<Rightarrow> nat \<Rightarrow> string \<Rightarrow> nat \<Rightarrow> char \<times> nat" where
  "get_random_char_from_set rnd k char_set set_size =
     (if set_size = 0 then (NUL, k)
      else (char_set ! (unat (rnd k) mod set_size), k + 1))"

fun contains_char_type :: "string \<Rightarrow> string \<Rightarrow> bool" where
  "contains_char_type [] char_set = False"
| "contains_char_type (c # cs) char_set =
     (if strchr_found char_set c then True else contains_char_type cs char_set)"

fun count_char_type :: "string \<Rightarrow> string \<Rightarrow> nat" where
  "count_char_type [] char_set = 0"
| "count_char_type (c # cs) char_set =
     (if strchr_found char_set c then count_char_type cs char_set + 1
      else count_char_type cs char_set)"

definition meets_minimum_requirements :: "string \<Rightarrow> PasswordOptions \<Rightarrow> bool" where
  "meets_minimum_requirements pw opts =
     (if require_all_types opts \<and> lowercase (charset opts) \<and>
         \<not> contains_char_type pw lowercase_chars then False
      else if require_all_types opts \<and> uppercase (charset opts) \<and>
         \<not> contains_char_type pw uppercase_chars then False
      else if require_all_types opts \<and> numbers (charset opts) \<and>
         \<not> contains_char_type pw number_chars then False
      else if require_all_types opts \<and> special (charset opts) \<and>
         \<not> contains_char_type pw special_chars then False
      else if min_numbers opts > 0 \<and> count_char_type pw number_chars < min_numbers opts
      then False
      else if min_special opts > 0 \<and> count_char_type pw special_chars < min_special opts
      then False
      else True)"

section \<open>password.c: ensure\_minimum\_requirements\<close>

text \<open>
  The repair pass works on the password buffer, the \<^verbatim>\<open>modifiable\<close> array and the random
  cursor. The scan \<^verbatim>\<open>for (i = 0; i < length; i++) if (modifiable[i]) { ...; break; }\<close>
  acts on the first position still marked, and does nothing when none is left.
\<close>

record repair_state =
  buf :: string
  modifiable :: "bool list"
  cursor :: nat

fun first_modifiable :: "bool list \<Rightarrow> nat option" where
  "first_modifiable [] = None"
| "first_modifiable (m # ms) =
     (if m then Some 0 else map_option (\<lambda>i. i + 1) (first_modifiable ms))"

definition overwrite_first :: "random_source \<Rightarrow> string \<Rightarrow> repair_state \<Rightarrow> repair_state" where
  "overwrite_first rnd char_set st =
     (case first_modifiable (modifiable st) of
        None \<Rightarrow> st
      | Some i \<Rightarrow>
          (case get_random_char_from_set rnd (cursor st) char_set (length char_set) of
             (c, k) \<Rightarrow>
               \<lparr>buf = (buf st)[i := c], modifiable = (modifiable st)[i := False],
                cursor = k\<rparr>))"

definition require_type ::
  "random_source \<Rightarrow> bool \<Rightarrow> string \<Rightarrow> repair_state \<Rightarrow> repair_state" where
  "require_type rnd selected char_set st =
     (if selected \<and> \<not> contains_char_type (buf st) char_set
      then overwrite_first rnd char_set st else st)"

text \<open>
  One round of the body of \<^verbatim>\<open>while (count < minimum)\<close>: the counter is incremented
  only inside the scan, when a position was found.
\<close>

definition repair_round :: "random_source \<Rightarrow> string \<Rightarrow> nat \<times> repair_state \<Rightarrow> nat \<times> repair_state" where
  "repair_round rnd char_set cs =
     (case cs of (count, st) \<Rightarrow>
        (case first_modifiable (modifiable st) of
           None \<Rightarrow> (count, st)
         | Some i \<Rightarrow> (count + 1, overwrite_first rnd char_set st)))"

text \<open>The \<^verbatim>\<open>while\<close> loop itself; \<open>None\<close> stands for a loop that never exits.\<close>

partial_function (option) raise_count ::
  "random_source \<Rightarrow> string \<Rightarrow> nat \<Rightarrow> nat \<times> repair_state \<Rightarrow> repair_state option" where
  "raise_count rnd char_set minimum cs =
     (if fst cs < minimum then raise_count rnd char_set minimum (repair_round rnd char_set cs)
      else Some (snd cs))"

text \<open>The block guarded by \<^verbatim>\<open>if (options->require_all_types)\<close>, in the order of the source.\<close>

definition ensure_required_types ::
  "random_source \<Rightarrow> PasswordOptions \<Rightarrow> repair_state \<Rightarrow> repair_state" where
  "ensure_required_types rnd opts st =
     (if require_all_types opts then
        require_type rnd (special (charset opts)) special_chars
          (require_type rnd (numbers (charset opts)) number_chars
             (require_type rnd (uppercase (charset opts)) uppercase_chars
                (require_type rnd (lowercase (charset opts)) lowercase_chars st)))
      else st)"

text \<open>
  The block guarded by \<^verbatim>\<open>if (minimum > 0)\<close>: count the characters of the category once,
  then loop.
\<close>

definition ensure_minimum_count ::
  "random_source \<Rightarrow> string \<Rightarrow> nat \<Rightarrow> repair_state \<Rightarrow> repair_state option" where
  "ensure_minimum_count rnd char_set minimum st =
     (if minimum > 0
      then raise_count rnd char_set minimum (count_char_type (buf st) char_set, st)
      else Some st)"

text \<open>
  The only caller passes non-null pointers, so the model takes the buffer and the options
  directly. The result is the repaired buffer, or \<open>None\<close> when the function does not return.
\<close>

definition ensure_minimum_requirements ::
  "heap_oracle \<Rightarrow> random_source \<Rightarrow> nat \<Rightarrow> string \<Rightarrow> PasswordOptions \<Rightarrow> string option" where
  "ensure_minimum_requirements mem rnd k pw opts =
     (if length pw = 0 then Some pw
      else if \<not> mem ModifiableAlloc then Some pw
      else
        (case ensure_minimum_count rnd number_chars (min_numbers opts)
                (ensure_required_types rnd opts
                   \<lparr>buf = pw, modifiable = replicate (length pw) True, cursor = k\<rparr>) of
           None \<Rightarrow> None
         | Some st2 \<Rightarrow>
             (case ensure_minimum_count rnd special_chars (min_special opts) st2 of
                None \<Rightarrow> None
              | Some st3 \<Rightarrow> Some (buf st3))))"

section \<open>password.c: generate\_password\<close>

text \<open>
  The pool is a \<^verbatim>\<open>SecureString\<close> of capacity 256. The four category strings together hold
  70 characters, so \<^verbatim>\<open>secure_string_append_cstr\<close> and \<^verbatim>\<open>secure_string_append\<close> never reach
  their reallocation branch and appending is list concatenation.
\<close>

definition build_char_set :: "CharSetConfig \<Rightarrow> string" where
  "build_char_set cs =
     (if lowercase cs then lowercase_chars else []) @
     (if uppercase cs then uppercase_chars else []) @
     (if numbers cs then number_chars else []) @
     (if special cs then special_chars else [])"

definition remove_ambiguous :: "string \<Rightarrow> string" where
  "remove_ambiguous char_set = filter (\<lambda>c. \<not> strchr_found ambiguous_chars c) char_set"

text \<open>
  The generation loop \<^verbatim>\<open>for (i = 0; i < length; i++) password[i] = char_set[byte % len]\<close>
  from position \<open>i\<close> on; position \<open>i\<close> uses the \<open>i\<close>-th byte of the random source.
\<close>

function draw_password :: "random_source \<Rightarrow> string \<Rightarrow> nat \<Rightarrow> nat \<Rightarrow> string" where
  "draw_password rnd char_set n i =
     (if i < n
      then char_set ! (unat (rnd i) mod length char_set) # draw_password rnd char_set n (i + 1)
      else [])"
  by pat_completeness auto
termination
  by (relation "measure (\<lambda>(rnd, char_set, n, i). n - i)") auto

declare draw_password.simps [simp del]

text \<open>The outer \<open>option\<close> is \<open>None\<close> when the call does not return.\<close>

definition generate_password ::
  "heap_oracle \<Rightarrow> random_source \<Rightarrow> PasswordOptions option \<Rightarrow> PasswordResult option" where
  "generate_password mem rnd options =
     (case options of
        None \<Rightarrow> Some (zero_result\<lparr>strength := Some ''Invalid options''\<rparr>)
      | Some opts \<Rightarrow>
          if \<not> validate_options options
          then Some (zero_result\<lparr>strength := Some ''Invalid options''\<rparr>)
          else if \<not> mem PoolAlloc
          then Some (zero_result\<lparr>strength := Some ''Memory error''\<rparr>)
          else
            let pool = build_char_set (charset opts) in
            if avoid_ambiguous (charset opts) \<and> length pool > 0 \<and> \<not> mem FilteredAlloc
            then Some (zero_result\<lparr>strength := Some ''Memory error''\<rparr>)
            else
              let char_set = (if avoid_ambiguous (charset opts) \<and> length pool > 0
                              then remove_ambiguous pool else pool) in
              if length char_set = 0
              then Some (zero_result\<lparr>strength := Some ''No character set selected''\<rparr>)
              else if \<not> mem BufferAlloc
              then Some (zero_result\<lparr>strength := Some ''Memory error''\<rparr>)
              else
                let drawn = draw_password rnd char_set (length_opt opts) 0 in
                (case (if require_all_types opts \<or> min_numbers opts > 0 \<or> min_special opts > 0
                       then ensure_minimum_requirements mem rnd (length_opt opts) drawn opts
                       else Some drawn) of
                   None \<Rightarrow> None
                 | Some pw \<Rightarrow> Some (attach_metadata pw (length_opt opts) opts)))"

section \<open>password.c: generate\_password\_from\_pattern\<close>

text \<open>
  The \<^verbatim>\<open>switch\<close> on a pattern code: the drawn character with the advanced cursor, or
  \<open>None\<close> for the \<^verbatim>\<open>default\<close> branch.
\<close>

definition pattern_switch :: "random_source \<Rightarrow> nat \<Rightarrow> char \<Rightarrow> (char \<times> nat) option" where
  "pattern_switch rnd k pattern_char =
     (if pattern_char = CHR ''l''
      then Some (get_random_char_from_set rnd k lowercase_chars (length lowercase_chars))
      else if pattern_char = CHR ''U''
      then Some (get_random_char_from_set rnd k uppercase_chars (length uppercase_chars))
      else if pattern_char = CHR ''n''
      then Some (get_random_char_from_set rnd k number_chars (length number_chars))
      else if pattern_char = CHR ''s''
      then Some (get_random_char_from_set rnd k special_chars (length special_chars))
      else None)"

text \<open>
  The loop over the pattern. \<open>written\<close> is the part of the buffer filled so far. \<open>Inl\<close>
  is an early failure return, with its reason and the partly filled buffer; \<open>Inr\<close> is the
  completely filled buffer.
\<close>

fun pattern_loop ::
  "random_source \<Rightarrow> nat \<Rightarrow> string \<Rightarrow> string \<Rightarrow> (string \<times> string) + string" where
  "pattern_loop rnd k written [] = Inr written"
| "pattern_loop rnd k written (p # ps) =
     (case pattern_switch rnd k p of
        None \<Rightarrow> Inl (''Invalid pattern character'', written)
      | Some (g, k') \<Rightarrow>
          if g = NUL then Inl (''Failed to generate character'', written)
          else pattern_loop rnd k' (written @ [g]) ps)"

definition generate_password_from_pattern ::
  "heap_oracle \<Rightarrow> random_source \<Rightarrow> string option \<Rightarrow> PasswordResult" where
  "generate_password_from_pattern mem rnd pattern =
     (case pattern of
        None \<Rightarrow> zero_result\<lparr>strength := Some ''Invalid pattern''\<rparr>
      | Some pat \<Rightarrow>
          if length pat = 0 then zero_result\<lparr>strength := Some ''Invalid pattern''\<rparr>
          else if \<not> mem PatternAlloc then zero_result\<lparr>strength := Some ''Memory error''\<rparr>
          else
            (case pattern_loop rnd 0 [] pat of
               Inl (reason, partial) \<Rightarrow>
                 (free_password_result
                    (zero_result\<lparr>password := Some partial, length_res := length pat\<rparr>))
                 \<lparr>strength := Some reason\<rparr>
             | Inr pw \<Rightarrow>
                 let opts = password_options_init
                       \<lparr>length_opt := length pat,
                        charset := (charset password_options_init)
                          \<lparr>lowercase := strchr_found pat (CHR ''l''),
                           uppercase := strchr_found pat (CHR ''U''),
                           numbers := strchr_found pat (CHR ''n''),
                           special := strchr_found pat (CHR ''s'')\<rparr>\<rparr>
                 in attach_metadata pw (length pat) opts))"

section \<open>C library character classes (the "C" locale)\<close>

text \<open>
  The sources pass \<^verbatim>\<open>(unsigned char)c\<close> to the \<^verbatim>\<open>ctype.h\<close> functions; in the "C" locale
  they classify the ASCII letters and digits only.
\<close>

definition isdigit :: "char \<Rightarrow> bool" where
  "isdigit c = (48 \<le> (of_char c :: nat) \<and> (of_char c :: nat) \<le> 57)"

definition isupper :: "char \<Rightarrow> bool" where
  "isupper c = (65 \<le> (of_char c :: nat) \<and> (of_char c :: nat) \<le> 90)"

definition islower :: "char \<Rightarrow> bool" where
  "islower c = (97 \<le> (of_char c :: nat) \<and> (of_char c :: nat) \<le> 122)"

definition isalpha :: "char \<Rightarrow> bool" where
  "isalpha c = (isupper c \<or> islower c)"

definition tolower :: "char \<Rightarrow> char" where
  "tolower c = (if isupper c then char_of ((of_char c :: nat) + 32) else c)"

text \<open>A character promoted to \<^verbatim>\<open>int\<close> for arithmetic (only used on ASCII characters).\<close>

definition char_int :: "char \<Rightarrow> int" where
  "char_int c = of_char c"

text \<open>\<^verbatim>\<open>strstr(haystack, needle) != NULL\<close>: the needle occurs as a contiguous block.\<close>

fun starts_with :: "string \<Rightarrow> string \<Rightarrow> bool" where
  "starts_with [] hay = True"
| "starts_with (n # ns) [] = False"
| "starts_with (n # ns) (h # hs) = (n = h \<and> starts_with ns hs)"

fun strstr_found :: "string \<Rightarrow> string \<Rightarrow> bool" where
  "strstr_found [] needle = (needle = [])"
| "strstr_found (h # hs) needle = (starts_with needle (h # hs) \<or> strstr_found hs needle)"

text \<open>Integer division of C truncates towards zero.\<close>

definition c_div :: "int \<Rightarrow> int \<Rightarrow> int" where
  "c_div a b = (if (a < 0) = (b < 0) then \<bar>a\<bar> div \<bar>b\<bar> else - (\<bar>a\<bar> div \<bar>b\<bar>))"

section \<open>Reading a C string by index\<close>

text \<open>
  A string of length \<open>n\<close> occupies the indices \<open>0..n\<close>, the last one holding the
  terminator. A read at any other index is outside the string: undefined behaviour in C,
  a fault in the model. Functions that index the password return \<open>fault + result\<close>.
\<close>

datatype fault = ReadOutOfBounds

definition char_at :: "string \<Rightarrow> nat \<Rightarrow> fault + char" where
  "char_at s i =
     (if i < length s then Inr (s ! i)
      else if i = length s then Inr NUL
      else Inl ReadOutOfBounds)"

section \<open>security.h and security.c: data\<close>

datatype StrengthCategory =
  STRENGTH_VERY_WEAK | STRENGTH_WEAK | STRENGTH_FAIR | STRENGTH_GOOD | STRENGTH_STRONG
  | STRENGTH_VERY_STRONG

record SecurityAssessment =
  score :: int
  category :: StrengthCategory
  entropy_sa :: real
  crack_time_seconds :: real
  has_weak_pattern :: bool
  has_dictionary_word :: bool
  is_duplicate :: bool

text \<open>The table of weak patterns, each with its description, up to the terminator.\<close>

definition weak_patterns :: "(string \<times> string) list" where
  "weak_patterns =
     [(''123'', ''Sequential numbers''), (''abc'', ''Sequential letters''),
      (''qwerty'', ''Keyboard pattern''), (''password'', ''Common word''),
      (''admin'', ''Common word''), (''letmein'', ''Common phrase''),
      (''welcome'', ''Common word''), (''monkey'', ''Common word''),
      (''dragon'', ''Common word''), (''baseball'', ''Common word''),
      (''football'', ''Common word''), (''mustang'', ''Common word''),
      (''master'', ''Common word''), (''hello'', ''Common word''),
      (''secret'', ''Common word''), (''asdf'', ''Keyboard pattern''),
      (''zxcv'', ''Keyboard pattern''), (''111'', ''Repeated numbers''),
      (''aaa'', ''Repeated letters''), (''000'', ''Repeated numbers'')]"

definition dictionary_words :: "string list" where
  "dictionary_words =
     [''password'', ''123456'', ''12345678'', ''1234'', ''qwerty'', ''12345'',
      ''dragon'', ''pussy'', ''baseball'', ''football'', ''letmein'', ''monkey'',
      ''696969'', ''abc123'', ''mustang'', ''michael'', ''shadow'', ''master'',
      ''jennifer'', ''111111'', ''2000'', ''jordan'', ''superman'', ''harley'',
      ''1234567'', ''fuckme'', ''hunter'', ''fuckyou'', ''trustno1'', ''ranger'',
      ''buster'', ''thomas'', ''tigger'', ''robert'', ''soccer'', ''fuck'', ''batman'',
      ''test'', ''pass'', ''killer'', ''hockey'', ''george'', ''charlie'', ''andrew'',
      ''michelle'', ''love'', ''sunshine'', ''jessica'', ''pepper'', ''daniel'',
      ''access'', ''123456789'', ''654321'', ''joshua'', ''maggie'', ''starwars'',
      ''silver'', ''william'', ''dallas'', ''yankees'', ''123123'', ''ashley'',
      ''666666'', ''hello'', ''amanda'', ''orange'', ''biteme'', ''freedom'',
      ''computer'', ''sexy'', ''thunder'', ''nicole'', ''ginger'', ''heather'',
      ''hammer'', ''summer'', ''corvette'', ''taylor'', ''fucker'', ''austin'',
      ''1111'', ''merlin'', ''matthew'', ''121212'', ''golfer'', ''cheese'',
      ''princess'', ''martin'', ''chelsea'', ''patrick'', ''richard'', ''diamond'',
      ''yellow'', ''bigdog'', ''secret'', ''asdfgh'', ''sparky'', ''cowboy'']"

definition keyboard_rows :: "string list" where
  "keyboard_rows = [''qwertyuiop'', ''asdfghjkl'', ''zxcvbnm'', ''1234567890'']"

definition GPU_GUESSES_PER_SECOND :: real where
  "GPU_GUESSES_PER_SECOND = 1000000000"

definition security_assessment_init :: SecurityAssessment where
  "security_assessment_init =
     \<lparr>score = 0, category = STRENGTH_VERY_WEAK, entropy_sa = 0, crack_time_seconds = 0,
      has_weak_pattern = False, has_dictionary_word = False, is_duplicate = False\<rparr>"

text \<open>
  The cast \<^verbatim>\<open>(StrengthCategory)(score / 20)\<close> followed by the cap
  \<^verbatim>\<open>if (category > STRENGTH_VERY_STRONG) category = STRENGTH_VERY_STRONG\<close>.
\<close>

definition category_of_score :: "int \<Rightarrow> StrengthCategory" where
  "category_of_score sc =
     (let q = c_div sc 20 in
      if q = 0 then STRENGTH_VERY_WEAK
      else if q = 1 then STRENGTH_WEAK
      else if q = 2 then STRENGTH_FAIR
      else if q = 3 then STRENGTH_GOOD
      else if q = 4 then STRENGTH_STRONG
      else STRENGTH_VERY_STRONG)"

fun get_strength_string :: "StrengthCategory \<Rightarrow> string" where
  "get_strength_string STRENGTH_VERY_WEAK = ''Very Weak''"
| "get_strength_string STRENGTH_WEAK = ''Weak''"
| "get_strength_string STRENGTH_FAIR = ''Fair''"
| "get_strength_string STRENGTH_GOOD = ''Good''"
| "get_strength_string STRENGTH_STRONG = ''Strong''"
| "get_strength_string STRENGTH_VERY_STRONG = ''Very Strong''"

section \<open>security.c: calculate\_strength\_score\<close>

record char_classes =
  has_lower :: bool
  has_upper :: bool
  has_digit :: bool
  has_special :: bool

definition no_classes :: char_classes where
  "no_classes = \<lparr>has_lower = False, has_upper = False, has_digit = False, has_special = False\<rparr>"

text \<open>The \<^verbatim>\<open>if / else if\<close> chain in the body of the variety loop.\<close>

definition classify :: "char \<Rightarrow> char_classes \<Rightarrow> char_classes" where
  "classify c v =
     (if islower c then v\<lparr>has_lower := True\<rparr>
      else if isupper c then v\<lparr>has_upper := True\<rparr>
      else if isdigit c then v\<lparr>has_digit := True\<rparr>
      else v\<lparr>has_special := True\<rparr>)"

text \<open>\<^verbatim>\<open>for (i = 0; i < length; i++)\<close> over \<^verbatim>\<open>password[i]\<close>, from index \<open>i\<close> on.\<close>

function scan_classes :: "string \<Rightarrow> nat \<Rightarrow> nat \<Rightarrow> char_classes \<Rightarrow> fault + char_classes" where
  "scan_classes pw n i v =
     (if i < n
      then (case char_at pw i of
              Inl f \<Rightarrow> Inl f
            | Inr c \<Rightarrow> scan_classes pw n (i + 1) (classify c v))
      else Inr v)"
  by pat_completeness auto
termination
  by (relation "measure (\<lambda>(pw, n, i, v). n - i)") auto

declare scan_classes.simps [simp del]

text \<open>
  \<^verbatim>\<open>for (i = 1; i < length - 1; i++) if (!isalpha(password[i])) { score += 10; break; }\<close>:
  whether the bonus is added, scanning from index \<open>i\<close> up to the bound \<open>n\<close>.
\<close>

function scan_middle :: "string \<Rightarrow> nat \<Rightarrow> nat \<Rightarrow> fault + bool" where
  "scan_middle pw n i =
     (if i < n
      then (case char_at pw i of
              Inl f \<Rightarrow> Inl f
            | Inr c \<Rightarrow> if \<not> isalpha c then Inr True else scan_middle pw n (i + 1))
      else Inr False)"
  by pat_completeness auto
termination
  by (relation "measure (\<lambda>(pw, n, i). n - i)") auto

declare scan_middle.simps [simp del]

definition variety_count :: "char_classes \<Rightarrow> int" where
  "variety_count v =
     (if has_lower v then 1 else 0) + (if has_upper v then 1 else 0) +
     (if has_digit v then 1 else 0) + (if has_special v then 1 else 0)"

text \<open>The block under \<^verbatim>\<open>/* Length score (max 40 points) */\<close>.\<close>

definition length_points :: "nat \<Rightarrow> int" where
  "length_points len =
     (if len \<ge> 12 then 40 else if len \<ge> 10 then 30 else if len \<ge> 8 then 20 else 10)"

text \<open>The \<^verbatim>\<open>switch (variety_count)\<close>.\<close>

definition variety_points :: "char_classes \<Rightarrow> int" where
  "variety_points v =
     (if variety_count v = 4 then 40
      else if variety_count v = 3 then 30
      else if variety_count v = 2 then 20
      else if variety_count v = 1 then 10
      else 0)"

definition calculate_strength_score :: "string option \<Rightarrow> nat \<Rightarrow> fault + int" where
  "calculate_strength_score passwd len =
     (case passwd of
        None \<Rightarrow> Inr 0
      | Some pw \<Rightarrow>
          if len < MIN_PASSWORD_LENGTH then Inr 0
          else
            let s0 = length_points len
            in (case scan_classes pw len 0 no_classes of
                  Inl f \<Rightarrow> Inl f
                | Inr v \<Rightarrow>
                    let s1 = s0 + variety_points v
                    in (case scan_middle pw (size_sub len 1) 1 of
                          Inl f \<Rightarrow> Inl f
                        | Inr bonus \<Rightarrow>
                            let s2 = (if bonus then s1 + 10 else s1);
                                s3 = (if len \<ge> 8 \<and> has_lower v \<and> has_upper v \<and> has_digit v
                                      then s2 + 10 else s2)
                            in Inr (if s3 > 100 then 100 else s3))))"

section \<open>security.c: check\_weak\_patterns\<close>

text \<open>The first \<open>strstr\<close> loop: the password against every table entry.\<close>

fun matches_weak_table :: "string \<Rightarrow> (string \<times> string) list \<Rightarrow> bool" where
  "matches_weak_table pw [] = False"
| "matches_weak_table pw (entry # entries) =
     (if strstr_found pw (fst entry) then True else matches_weak_table pw entries)"

text \<open>The tests on \<open>c1\<close>, \<open>c2\<close>, \<open>c3\<close> in the body of the sequential loop.\<close>

definition sequential_run :: "char \<Rightarrow> char \<Rightarrow> char \<Rightarrow> bool" where
  "sequential_run c1 c2 c3 =
     (if isdigit c1 \<and> isdigit c2 \<and> isdigit c3 \<and>
         char_int c1 + 1 = char_int c2 \<and> char_int c2 + 1 = char_int c3 then True
      else if isdigit c1 \<and> isdigit c2 \<and> isdigit c3 \<and>
         char_int c1 - 1 = char_int c2 \<and> char_int c2 - 1 = char_int c3 then True
      else if isalpha c1 \<and> isalpha c2 \<and> isalpha c3 \<and>
         char_int (tolower c1) + 1 = char_int (tolower c2) \<and>
         char_int (tolower c2) + 1 = char_int (tolower c3) then True
      else if isalpha c1 \<and> isalpha c2 \<and> isalpha c3 \<and>
         char_int (tolower c1) - 1 = char_int (tolower c2) \<and>
         char_int (tolower c2) - 1 = char_int (tolower c3) then True
      else False)"

text \<open>
  \<^verbatim>\<open>for (i = 0; i < pass_len - 2; i++)\<close> with the three reads at the head of the body;
  \<open>bound\<close> is the value of \<^verbatim>\<open>pass_len - 2\<close>. \<open>Inr True\<close> is the early \<^verbatim>\<open>return true\<close>.
\<close>

function sequential_scan :: "string \<Rightarrow> nat \<Rightarrow> nat \<Rightarrow> fault + bool" where
  "sequential_scan pw bound i =
     (if i < bound
      then (case char_at pw i of
              Inl f \<Rightarrow> Inl f
            | Inr c1 \<Rightarrow>
                (case char_at pw (i + 1) of
                   Inl f \<Rightarrow> Inl f
                 | Inr c2 \<Rightarrow>
                     (case char_at pw (i + 2) of
                        Inl f \<Rightarrow> Inl f
                      | Inr c3 \<Rightarrow>
                          if sequential_run c1 c2 c3 then Inr True
                          else sequential_scan pw bound (i + 1))))
      else Inr False)"
  by pat_completeness auto
termination
  by (relation "measure (\<lambda>(pw, bound, i). bound - i)") auto

declare sequential_scan.simps [simp del]

text \<open>
  The loop for repeated characters; \<^verbatim>\<open>&&\<close> reads \<^verbatim>\<open>password[i + 2]\<close> only when the first
  comparison holds.
\<close>

function repeated_scan :: "string \<Rightarrow> nat \<Rightarrow> nat \<Rightarrow> fault + bool" where
  "repeated_scan pw bound i =
     (if i < bound
      then (case char_at pw i of
              Inl f \<Rightarrow> Inl f
            | Inr c1 \<Rightarrow>
                (case char_at pw (i + 1) of
                   Inl f \<Rightarrow> Inl f
                 | Inr c2 \<Rightarrow>
                     if c1 = c2
                     then (case char_at pw (i + 2) of
                             Inl f \<Rightarrow> Inl f
                           | Inr c3 \<Rightarrow>
                               if c1 = c3 then Inr True
                               else repeated_scan pw bound (i + 1))
                     else repeated_scan pw bound (i + 1)))
      else Inr False)"
  by pat_completeness auto
termination
  by (relation "measure (\<lambda>(pw, bound, i). bound - i)") auto

declare repeated_scan.simps [simp del]

text \<open>
  \<^verbatim>\<open>for (i = 0; i <= row_len - 3; i++)\<close> over one keyboard row: the three characters at
  \<open>i\<close> forwards and backwards.
\<close>

function row_scan :: "string \<Rightarrow> string \<Rightarrow> nat \<Rightarrow> bool" where
  "row_scan pw row i =
     (if i \<le> size_sub (length row) 3
      then (if strstr_found pw [row ! i, row ! (i + 1), row ! (i + 2)] then True
            else if strstr_found pw [row ! (i + 2), row ! (i + 1), row ! i] then True
            else row_scan pw row (i + 1))
      else False)"
  by pat_completeness auto
termination
  by (relation "measure (\<lambda>(pw, row, i). size_sub (length row) 3 + 1 - i)") auto

declare row_scan.simps [simp del]

fun keyboard_scan :: "string \<Rightarrow> string list \<Rightarrow> bool" where
  "keyboard_scan pw [] = False"
| "keyboard_scan pw (row # rows) = (if row_scan pw row 0 then True else keyboard_scan pw rows)"

definition check_weak_patterns :: "string option \<Rightarrow> fault + bool" where
  "check_weak_patterns passwd =
     (case passwd of
        None \<Rightarrow> Inr False
      | Some pw \<Rightarrow>
          let pass_len = length pw in
          if matches_weak_table pw weak_patterns then Inr True
          else (case sequential_scan pw (size_sub pass_len 2) 0 of
                  Inl f \<Rightarrow> Inl f
                | Inr True \<Rightarrow> Inr True
                | Inr False \<Rightarrow>
                    (case repeated_scan pw (size_sub pass_len 2) 0 of
                       Inl f \<Rightarrow> Inl f
                     | Inr True \<Rightarrow> Inr True
                     | Inr False \<Rightarrow> Inr (keyboard_scan pw keyboard_rows))))"

section \<open>security.c: check\_dictionary\_words\<close>

fun contains_word :: "string \<Rightarrow> string list \<Rightarrow> bool" where
  "contains_word s [] = False"
| "contains_word s (w # ws) = (if strstr_found s w then True else contains_word s ws)"

text \<open>The \<^verbatim>\<open>switch\<close> of the leet speak loop.\<close>

definition leet_subst :: "char \<Rightarrow> char" where
  "leet_subst c =
     (if c = CHR ''4'' then CHR ''a''
      else if c = CHR ''3'' then CHR ''e''
      else if c = CHR ''0'' then CHR ''o''
      else if c = CHR ''1'' then CHR ''i''
      else if c = CHR ''5'' then CHR ''s''
      else if c = CHR ''7'' then CHR ''t''
      else if c = CHR ''@'' then CHR ''a''
      else if c = CHR ''$'' then CHR ''s''
      else if c = CHR ''!'' then CHR ''i''
      else c)"

text \<open>
  \<open>lower_password\<close> is a buffer of 256 bytes. The copy loop reads \<^verbatim>\<open>password[i]\<close> for
  \<open>i < pass_len\<close>, where \<open>pass_len\<close> is the length cut down to 255: it maps \<open>tolower\<close> over
  the first \<open>pass_len\<close> characters. The leet loop maps the \<^verbatim>\<open>switch\<close> over the copy made
  by \<^verbatim>\<open>strdup\<close>, which may fail.
\<close>

definition check_dictionary_words :: "heap_oracle \<Rightarrow> string option \<Rightarrow> bool" where
  "check_dictionary_words mem passwd =
     (case passwd of
        None \<Rightarrow> False
      | Some pw \<Rightarrow>
          let pass_len = (if length pw \<ge> 256 then 256 - 1 else length pw);
              lower_password = map tolower (take pass_len pw)
          in if contains_word lower_password dictionary_words then True
             else if \<not> mem StrdupAlloc then False
             else contains_word (map leet_subst lower_password) dictionary_words)"

section \<open>security.c: entropy estimate, crack time, assessment\<close>

definition calculate_simple_entropy :: "string option \<Rightarrow> nat \<Rightarrow> fault + real" where
  "calculate_simple_entropy passwd len =
     (case passwd of
        None \<Rightarrow> Inr 0
      | Some pw \<Rightarrow>
          if len = 0 then Inr 0
          else (case scan_classes pw len 0 no_classes of
                  Inl f \<Rightarrow> Inl f
                | Inr v \<Rightarrow>
                    let pool_size = (if has_lower v then 26 else 0) + (if has_upper v then 26 else 0) +
                                    (if has_digit v then 10 else 0) + (if has_special v then 32 else (0::nat))
                    in Inr (if pool_size = 0 then 0 else real len * log2 (real pool_size))))"

definition estimate_crack_time :: "real \<Rightarrow> real \<Rightarrow> real" where
  "estimate_crack_time entropy_bits guesses_per_second =
     (if entropy_bits \<le> 0 \<or> guesses_per_second \<le> 0 then 0
      else (2 powr entropy_bits) / guesses_per_second)"

text \<open>
  The block under \<^verbatim>\<open>/* Adjust score based on issues found */\<close> and the two clamps that
  follow it.
\<close>

definition adjusted_score :: "int \<Rightarrow> bool \<Rightarrow> bool \<Rightarrow> int" where
  "adjusted_score base weak dict =
     (let s1 = (if weak then c_div (base * 70) 100 else base);
          s2 = (if dict then c_div (s1 * 60) 100 else s1);
          s3 = (if s2 < 0 then 0 else s2)
      in if s3 > 100 then 100 else s3)"

definition assess_password_security ::
  "heap_oracle \<Rightarrow> string option \<Rightarrow> nat \<Rightarrow> fault + SecurityAssessment" where
  "assess_password_security mem passwd len =
     (if passwd = None \<or> len = 0 then Inr security_assessment_init
      else
        (case calculate_strength_score passwd len of
           Inl f \<Rightarrow> Inl f
         | Inr base \<Rightarrow>
             (case calculate_simple_entropy passwd len of
                Inl f \<Rightarrow> Inl f
              | Inr e \<Rightarrow>
                  (case check_weak_patterns passwd of
                     Inl f \<Rightarrow> Inl f
                   | Inr weak \<Rightarrow>
                       let dict = check_dictionary_words mem passwd;
                           s = adjusted_score base weak dict
                       in Inr \<lparr>score = s, category = category_of_score s, entropy_sa = e,
                               crack_time_seconds = estimate_crack_time e GPU_GUESSES_PER_SECOND,
                               has_weak_pattern = weak, has_dictionary_word = dict,
                               is_duplicate = False\<rparr>))))"

section \<open>Concrete environments and options\<close>

text \<open>An allocator that never fails and a random source that only returns zero bytes.\<close>

definition all_ok :: heap_oracle where
  "all_ok site = True"

definition zero_bytes :: random_source where
  "zero_bytes k = 0"

text \<open>
  Eight characters from lowercase, uppercase and digits, all types required. With the
  bytes \<open>0, 53, 53, 53, 53, 53, 53, 53\<close> the pool of 62 characters yields \<open>a1111111\<close>.
\<close>

definition three_type_options :: PasswordOptions where
  "three_type_options =
     \<lparr>length_opt = 8,
      charset = \<lparr>lowercase = True, uppercase = True, numbers = True, special = False,
                 avoid_ambiguous = False\<rparr>,
      require_all_types = True, min_numbers = 0, min_special = 0\<rparr>"

definition one_lowercase_bytes :: random_source where
  "one_lowercase_bytes k = (if k = 0 then 0 else if k < 8 then 53 else 0)"

text \<open>Eight characters from lowercase and digits, ambiguous characters avoided.\<close>

definition unambiguous_options :: PasswordOptions where
  "unambiguous_options =
     \<lparr>length_opt = 8,
      charset = \<lparr>lowercase = True, uppercase = False, numbers = True, special = False,
                 avoid_ambiguous = True\<rparr>,
      require_all_types = True, min_numbers = 0, min_special = 0\<rparr>"

text \<open>
  Two allocators that refuse one request each: the array of the repair pass, and the
  password buffer.
\<close>

definition repair_array_refused :: heap_oracle where
  "repair_array_refused site = (site \<noteq> ModifiableAlloc)"

definition buffer_refused :: heap_oracle where
  "buffer_refused site = (site \<noteq> BufferAlloc)"

text \<open>
  Eight characters from all four categories, all types required, four digits and four
  special characters at least.
\<close>

definition tight_options :: PasswordOptions where
  "tight_options =
     \<lparr>length_opt = 8,
      charset = \<lparr>lowercase = True, uppercase = True, numbers = True, special = True,
                 avoid_ambiguous = False\<rparr>,
      require_all_types = True, min_numbers = 4, min_special = 4\<rparr>"

text \<open>Shorthands used in the statements about pattern generation.\<close>

abbreviation pattern_codes :: "char set" where
  "pattern_codes \<equiv> {CHR ''l'', CHR ''U'', CHR ''n'', CHR ''s''}"

abbreviation code_matches :: "char \<Rightarrow> char \<Rightarrow> bool" where
  "code_matches p g \<equiv>
     (p = CHR ''l'' \<longrightarrow> g \<in> set lowercase_chars) \<and>
     (p = CHR ''U'' \<longrightarrow> g \<in> set uppercase_chars) \<and>
     (p = CHR ''n'' \<longrightarrow> g \<in> set number_chars) \<and>
     (p = CHR ''s'' \<longrightarrow> g \<in> set special_chars)"

section \<open>Properties of option validation\<close>

lemma validate_core:
  fixes len mn ms :: nat
  shows "(if len < 8 \<or> len > 128 then False
          else if \<not> lo \<and> \<not> up \<and> \<not> nu \<and> \<not> sp then False
          else if ra \<and> len < (if lo then 1 else 0) + (if up then 1 else 0) +
                              (if nu then 1 else 0) + (if sp then 1 else 0) then False
          else if mn > (if nu then len else 0) \<or> ms > (if sp then len else 0) then False
          else if (mn + ms) mod 2 ^ 64 > len then False else True) \<longleftrightarrow>
         (lo \<or> up \<or> nu \<or> sp) \<and> 8 \<le> len \<and> len \<le> 128 \<and>
         (ra \<longrightarrow> length (filter id [lo, up, nu, sp]) \<le> len) \<and>
         (if nu then mn \<le> len else mn = 0) \<and>
         (if sp then ms \<le> len else ms = 0) \<and>
         mn + ms \<le> len"
proof (cases "mn \<le> 128 \<and> ms \<le> 128")
  case True
  then have "(mn + ms) mod 2 ^ 64 = mn + ms"
    by simp
  then show ?thesis
    by (cases lo; cases up; cases nu; cases sp; simp; linarith?)
next
  case False
  then show ?thesis
    by (cases nu; cases sp; simp; linarith?)
qed

text \<open>
  Claim C7. \<open>validate_options\<close> accepts an options value exactly when at least one
  category is selected, the length lies in [8,128], the length is at least the number of
  selected categories when all types are required, each minimum is at most the length
  when its category is selected and zero otherwise, and the two minimums together do not
  exceed the length. The sum of the minimums is computed in \<^verbatim>\<open>size_t\<close>; it cannot wrap
  because both were compared with the length before.
\<close>

theorem validate_options_iff:
  "validate_options (Some opts) \<longleftrightarrow>
     (lowercase (charset opts) \<or> uppercase (charset opts) \<or>
      numbers (charset opts) \<or> special (charset opts)) \<and>
     8 \<le> length_opt opts \<and> length_opt opts \<le> 128 \<and>
     (require_all_types opts \<longrightarrow>
        length (filter id [lowercase (charset opts), uppercase (charset opts),
                           numbers (charset opts), special (charset opts)]) \<le> length_opt opts) \<and>
     (if numbers (charset opts) then min_numbers opts \<le> length_opt opts
      else min_numbers opts = 0) \<and>
     (if special (charset opts) then min_special opts \<le> length_opt opts
      else min_special opts = 0) \<and>
     min_numbers opts + min_special opts \<le> length_opt opts"
  unfolding validate_options_def option.case Let_def selected_types_def size_add_def
    SIZE_MOD_def MIN_PASSWORD_LENGTH_def MAX_PASSWORD_LENGTH_def
  by (rule validate_core)

theorem validate_options_iff_witness:
  "validate_options (Some password_options_init) \<and>
   \<not> validate_options (Some (password_options_init\<lparr>min_numbers := 9, min_special := 8\<rparr>))"
  using validate_options_iff [of password_options_init]
    validate_options_iff [of "password_options_init\<lparr>min_numbers := 9, min_special := 8\<rparr>"]
  by (simp add: password_options_init_def)

section \<open>Properties of the character sets and of pattern generation\<close>

lemmas cs_defs = lowercase_chars_def uppercase_chars_def number_chars_def special_chars_def

lemma NUL_notin_sets:
  "NUL \<notin> set lowercase_chars" "NUL \<notin> set uppercase_chars"
  "NUL \<notin> set number_chars" "NUL \<notin> set special_chars"
  by (simp_all add: cs_defs NUL_def)

lemma sets_nonempty:
  "lowercase_chars \<noteq> []" "uppercase_chars \<noteq> []" "number_chars \<noteq> []" "special_chars \<noteq> []"
  by (simp_all add: cs_defs)

lemma get_random_char_in_set:
  assumes "char_set \<noteq> []"
  shows "fst (get_random_char_from_set rnd k char_set (length char_set)) \<in> set char_set"
proof -
  have "unat (rnd k) mod length char_set < length char_set"
    using assms by simp
  then show ?thesis
    using assms by (simp add: get_random_char_from_set_def)
qed

lemma pattern_switch_None:
  "pattern_switch rnd k p = None \<longleftrightarrow>
     p \<notin> pattern_codes"
  by (simp add: pattern_switch_def)

lemma pattern_switch_Some:
  assumes "pattern_switch rnd k p = Some (g, k')"
  shows "g \<noteq> NUL \<and>
         code_matches p g"
proof -
  have in_set: "\<And>cs. cs \<noteq> [] \<Longrightarrow> get_random_char_from_set rnd k cs (length cs) = (g, k')
      \<Longrightarrow> g \<in> set cs"
    using get_random_char_in_set by (metis fst_conv)
  consider "p = CHR ''l''" | "p = CHR ''U''" | "p = CHR ''n''" | "p = CHR ''s''"
    using assms by (auto simp: pattern_switch_def split: if_splits)
  then show ?thesis
  proof cases
    case 1
    with assms have "g \<in> set lowercase_chars"
      by (intro in_set sets_nonempty) (simp add: pattern_switch_def)
    with 1 show ?thesis using NUL_notin_sets by auto
  next
    case 2
    with assms have "g \<in> set uppercase_chars"
      by (intro in_set sets_nonempty) (simp add: pattern_switch_def)
    with 2 show ?thesis using NUL_notin_sets by auto
  next
    case 3
    with assms have "g \<in> set number_chars"
      by (intro in_set sets_nonempty) (simp add: pattern_switch_def)
    with 3 show ?thesis using NUL_notin_sets by auto
  next
    case 4
    with assms have "g \<in> set special_chars"
      by (intro in_set sets_nonempty) (simp add: pattern_switch_def)
    with 4 show ?thesis using NUL_notin_sets by auto
  qed
qed

lemma pattern_loop_valid:
  assumes "set pat \<subseteq> pattern_codes"
  shows "\<exists>pw. pattern_loop rnd k written pat = Inr (written @ pw) \<and> length pw = length pat \<and>
           (\<forall>i < length pat. code_matches (pat ! i) (pw ! i))"
  using assms
proof (induction pat arbitrary: k written)
  case Nil
  then show ?case by simp
next
  case (Cons p ps)
  from Cons.prems have "pattern_switch rnd k p \<noteq> None"
    by (simp add: pattern_switch_None)
  then obtain g k' where sw: "pattern_switch rnd k p = Some (g, k')"
    by auto
  note g = pattern_switch_Some [OF sw]
  from Cons.prems have "set ps \<subseteq> pattern_codes"
    by simp
  from Cons.IH [OF this, of k' "written @ [g]"]
  obtain pw where pw: "pattern_loop rnd k' (written @ [g]) ps = Inr ((written @ [g]) @ pw)"
      "length pw = length ps" "\<forall>i < length ps. code_matches (ps ! i) (pw ! i)"
    by blast
  have "pattern_loop rnd k written (p # ps) = Inr (written @ (g # pw))"
    using sw g pw(1) by simp
  moreover have "length (g # pw) = length (p # ps)"
    using pw(2) by simp
  moreover have "\<forall>i < length (p # ps). code_matches ((p # ps) ! i) ((g # pw) ! i)"
  proof (intro allI impI)
    fix i assume "i < length (p # ps)"
    then show "code_matches ((p # ps) ! i) ((g # pw) ! i)"
      using g pw(3) by (cases i) simp_all
  qed
  ultimately show ?case
    by blast
qed

lemma pattern_loop_invalid:
  assumes "\<not> set pat \<subseteq> pattern_codes"
  shows "\<exists>partial. pattern_loop rnd k written pat = Inl (''Invalid pattern character'', partial)"
  using assms
proof (induction pat arbitrary: k written)
  case Nil
  then show ?case by simp
next
  case (Cons p ps)
  show ?case
  proof (cases "pattern_switch rnd k p")
    case None
    then show ?thesis by simp
  next
    case (Some a)
    then obtain g k' where sw: "pattern_switch rnd k p = Some (g, k')"
      by (cases a) simp
    then have "p \<in> pattern_codes"
      using pattern_switch_None [of rnd k p] by auto
    with Cons.prems have "\<not> set ps \<subseteq> pattern_codes"
      by auto
    from Cons.IH [OF this, of k' "written @ [g]"] pattern_switch_Some [OF sw] sw
    show ?thesis by simp
  qed
qed

lemma free_after_failure:
  "(free_password_result (zero_result\<lparr>password := Some partial, length_res := n\<rparr>))
     \<lparr>strength := Some reason\<rparr> = zero_result\<lparr>strength := Some reason\<rparr>"
  by (simp add: free_password_result_def zero_result_def)

section \<open>Properties of the generation pipeline\<close>

lemma validate_selects:
  assumes "validate_options (Some opts)"
  shows "lowercase (charset opts) \<or> uppercase (charset opts) \<or>
         numbers (charset opts) \<or> special (charset opts)"
    and "8 \<le> length_opt opts"
  using assms
  by (simp_all add: validate_options_def MIN_PASSWORD_LENGTH_def split: if_splits)

lemma build_char_set_members:
  "lowercase cs \<Longrightarrow> CHR ''a'' \<in> set (build_char_set cs)"
  "uppercase cs \<Longrightarrow> CHR ''A'' \<in> set (build_char_set cs)"
  "numbers cs \<Longrightarrow> CHR ''2'' \<in> set (build_char_set cs)"
  "special cs \<Longrightarrow> CHR ''!'' \<in> set (build_char_set cs)"
  by (simp_all add: build_char_set_def cs_defs)

lemma unambiguous_members:
  "\<not> strchr_found ambiguous_chars (CHR ''a'')" "\<not> strchr_found ambiguous_chars (CHR ''A'')"
  "\<not> strchr_found ambiguous_chars (CHR ''2'')" "\<not> strchr_found ambiguous_chars (CHR ''!'')"
  by (simp_all add: strchr_found_def ambiguous_chars_def NUL_def)

lemma pool_nonempty:
  assumes "validate_options (Some opts)"
  shows "build_char_set (charset opts) \<noteq> []"
    and "remove_ambiguous (build_char_set (charset opts)) \<noteq> []"
proof -
  from validate_selects(1) [OF assms]
  obtain c where c: "c \<in> set (build_char_set (charset opts))" "\<not> strchr_found ambiguous_chars c"
    using build_char_set_members unambiguous_members by blast
  then show "build_char_set (charset opts) \<noteq> []"
    by auto
  from c have "c \<in> set (remove_ambiguous (build_char_set (charset opts)))"
    by (simp add: remove_ambiguous_def)
  then show "remove_ambiguous (build_char_set (charset opts)) \<noteq> []"
    by auto
qed

lemma draw_password_length: "length (draw_password rnd char_set n i) = n - i"
proof (induction rnd char_set n i rule: draw_password.induct)
  case (1 rnd char_set n i)
  then show ?case
    by (subst draw_password.simps) auto
qed

lemma overwrite_first_length: "length (buf (overwrite_first rnd char_set st)) = length (buf st)"
  by (simp add: overwrite_first_def split: option.splits prod.splits)

lemma require_type_length: "length (buf (require_type rnd sel char_set st)) = length (buf st)"
  by (simp add: require_type_def overwrite_first_length)

lemma repair_round_length: "length (buf (snd (repair_round rnd char_set x))) = length (buf (snd x))"
  by (cases x) (simp add: repair_round_def overwrite_first_length split: option.splits)

lemma raise_count_length:
  assumes "raise_count rnd char_set minimum x = Some y"
  shows "length (buf y) = length (buf (snd x))"
proof (rule raise_count.raw_induct
    [where P = "\<lambda>rnd char_set minimum x y. length (buf y) = length (buf (snd x))", OF _ assms])
  fix rc :: "random_source \<Rightarrow> string \<Rightarrow> nat \<Rightarrow> nat \<times> repair_state \<Rightarrow> repair_state option"
  fix rnd char_set minimum x y
  assume IH: "\<And>a b c d z. rc a b c d = Some z \<Longrightarrow> length (buf z) = length (buf (snd d))"
    and step: "(if fst x < minimum then rc rnd char_set minimum (repair_round rnd char_set x)
               else Some (snd x)) = Some y"
  show "length (buf y) = length (buf (snd x))"
  proof (cases "fst x < minimum")
    case True
    with step have "rc rnd char_set minimum (repair_round rnd char_set x) = Some y"
      by simp
    from IH [OF this] show ?thesis
      by (simp add: repair_round_length)
  next
    case False
    with step show ?thesis by simp
  qed
qed

lemma ensure_required_types_length:
  "length (buf (ensure_required_types rnd opts st)) = length (buf st)"
  by (simp add: ensure_required_types_def require_type_length)

lemma ensure_minimum_count_length:
  assumes "ensure_minimum_count rnd char_set minimum st = Some st'"
  shows "length (buf st') = length (buf st)"
proof (cases "minimum > 0")
  case True
  with assms have "raise_count rnd char_set minimum (count_char_type (buf st) char_set, st) = Some st'"
    by (simp add: ensure_minimum_count_def)
  from raise_count_length [OF this] show ?thesis
    by simp
next
  case False
  with assms show ?thesis
    by (simp add: ensure_minimum_count_def)
qed

lemma ensure_minimum_requirements_length:
  assumes "ensure_minimum_requirements mem rnd k pw opts = Some pw'"
  shows "length pw' = length pw"
proof (cases "length pw = 0 \<or> \<not> mem ModifiableAlloc")
  case True
  with assms show ?thesis
    by (auto simp: ensure_minimum_requirements_def split: if_splits)
next
  case False
  with assms obtain st2 st3 where
    st2: "ensure_minimum_count rnd number_chars (min_numbers opts)
            (ensure_required_types rnd opts
               \<lparr>buf = pw, modifiable = replicate (length pw) True, cursor = k\<rparr>) = Some st2"
    and st3: "ensure_minimum_count rnd special_chars (min_special opts) st2 = Some st3"
    and res: "pw' = buf st3"
    by (auto simp: ensure_minimum_requirements_def split: option.splits)
  show ?thesis
    using ensure_minimum_count_length [OF st2] ensure_minimum_count_length [OF st3] res
    by (simp add: ensure_required_types_length)
qed

lemma get_strength_category_label:
  "get_strength_category sc \<in>
     {''Very Weak'', ''Weak'', ''Fair'', ''Good'', ''Strong'', ''Very Strong''}"
  by (simp add: get_strength_category_def)

lemma generate_password_invalid:
  "\<not> validate_options p \<Longrightarrow>
   generate_password mem rnd p = Some (zero_result\<lparr>strength := Some ''Invalid options''\<rparr>)"
  by (cases p) (simp_all add: generate_password_def)

lemma generate_password_memory:
  assumes "validate_options (Some opts)"
    and "\<not> mem PoolAlloc \<or> (avoid_ambiguous (charset opts) \<and> \<not> mem FilteredAlloc) \<or>
         \<not> mem BufferAlloc"
  shows "generate_password mem rnd (Some opts) =
         Some (zero_result\<lparr>strength := Some ''Memory error''\<rparr>)"
  using assms pool_nonempty [OF assms(1)]
  by (auto simp: generate_password_def Let_def)

lemma generate_password_success:
  assumes "validate_options (Some opts)"
    and "mem PoolAlloc" and "avoid_ambiguous (charset opts) \<longrightarrow> mem FilteredAlloc"
    and "mem BufferAlloc"
    and "generate_password mem rnd (Some opts) = Some r"
  shows "\<exists>pw. password r = Some pw \<and> length pw = length_opt opts \<and>
           length_res r = length_opt opts \<and>
           strength r = Some (get_strength_category (strength_score r))"
proof -
  define char_set where "char_set =
     (if avoid_ambiguous (charset opts) \<and> length (build_char_set (charset opts)) > 0
      then remove_ambiguous (build_char_set (charset opts)) else build_char_set (charset opts))"
  define drawn where "drawn = draw_password rnd char_set (length_opt opts) 0"
  define fixed where "fixed =
     (if require_all_types opts \<or> min_numbers opts > 0 \<or> min_special opts > 0
      then ensure_minimum_requirements mem rnd (length_opt opts) drawn opts
      else Some drawn)"
  have ne: "char_set \<noteq> []"
    using pool_nonempty [OF assms(1)] by (simp add: char_set_def)
  have unfold: "generate_password mem rnd (Some opts) =
     (case fixed of None \<Rightarrow> None
      | Some pw \<Rightarrow> Some (attach_metadata pw (length_opt opts) opts))"
    using assms(1-4) ne pool_nonempty [OF assms(1)]
    by (cases "avoid_ambiguous (charset opts)")
      (simp_all add: generate_password_def Let_def fixed_def drawn_def char_set_def)
  from assms(5) obtain pw where pw: "fixed = Some pw"
    unfolding unfold by (cases fixed) simp_all
  have "length drawn = length_opt opts"
    by (simp add: drawn_def draw_password_length)
  with pw have "length pw = length_opt opts"
    using ensure_minimum_requirements_length [of mem rnd "length_opt opts" drawn opts pw]
    by (auto simp: fixed_def split: if_splits)
  with assms(5) pw show ?thesis
    unfolding unfold by (auto simp: attach_metadata_def Let_def)
qed

section \<open>Evaluating the repair loop\<close>

text \<open>
  Three rules decide every round of \<open>raise_count\<close>: the loop has ended, it makes
  progress on a position that is still modifiable, or no such position is left and the
  state repeats for ever.
\<close>

lemma raise_count_done:
  "\<not> count < minimum \<Longrightarrow> raise_count rnd cs minimum (count, st) = Some st"
  by (subst raise_count.simps) simp

lemma raise_count_progress:
  "count < minimum \<Longrightarrow> first_modifiable (modifiable st) \<noteq> None \<Longrightarrow>
   raise_count rnd cs minimum (count, st) =
   raise_count rnd cs minimum (count + 1, overwrite_first rnd cs st)"
  by (subst raise_count.simps) (auto simp: repair_round_def)

lemma raise_count_stuck:
  assumes "count < minimum" and "first_modifiable (modifiable st) = None"
  shows "raise_count rnd cs minimum (count, st) = None"
proof (rule ccontr)
  assume "raise_count rnd cs minimum (count, st) \<noteq> None"
  then obtain y where y: "raise_count rnd cs minimum (count, st) = Some y"
    by auto
  have "\<not> (fst (count, st) < minimum \<and> first_modifiable (modifiable (snd (count, st))) = None)"
  proof (rule raise_count.raw_induct
      [where P = "\<lambda>rnd cs minimum x y.
         \<not> (fst x < minimum \<and> first_modifiable (modifiable (snd x)) = None)", OF _ y])
    fix rc :: "random_source \<Rightarrow> string \<Rightarrow> nat \<Rightarrow> nat \<times> repair_state \<Rightarrow> repair_state option"
    fix rnd cs minimum x y
    assume IH: "\<And>a b c d z. rc a b c d = Some z \<Longrightarrow>
        \<not> (fst d < c \<and> first_modifiable (modifiable (snd d)) = None)"
      and step: "(if fst x < minimum then rc rnd cs minimum (repair_round rnd cs x)
                  else Some (snd x)) = Some y"
    show "\<not> (fst x < minimum \<and> first_modifiable (modifiable (snd x)) = None)"
    proof
      assume stuck: "fst x < minimum \<and> first_modifiable (modifiable (snd x)) = None"
      then have "repair_round rnd cs x = x"
        by (cases x) (simp add: repair_round_def)
      with step stuck have "rc rnd cs minimum x = Some y"
        by simp
      from IH [OF this] stuck show False
        by simp
    qed
  qed
  with assms show False
    by simp
qed

lemmas validate_defs = validate_options_def MIN_PASSWORD_LENGTH_def MAX_PASSWORD_LENGTH_def
  selected_types_def size_add_def SIZE_MOD_def

lemmas repair_defs = ensure_minimum_requirements_def ensure_required_types_def
  ensure_minimum_count_def require_type_def overwrite_first_def get_random_char_from_set_def
  strchr_found_def NUL_def cs_defs raise_count_done raise_count_progress raise_count_stuck

lemma zero_result_fields:
  "password (zero_result\<lparr>strength := s\<rparr>) = None"
  "strength (zero_result\<lparr>strength := s\<rparr>) = s"
  by (simp_all add: zero_result_def)

lemma generate_password_shape:
  assumes "generate_password mem rnd p = Some r"
  shows "(password r = None \<and>
          strength r \<in> Some ` {''Invalid options'', ''Memory error'', ''No character set selected''}) \<or>
         (\<exists>pw. password r = Some pw \<and> pw \<noteq> [] \<and>
          strength r \<in> Some ` {''Very Weak'', ''Weak'', ''Fair'', ''Good'', ''Strong'', ''Very Strong''})"
proof (cases "validate_options p")
  case False
  from generate_password_invalid [OF this, of mem rnd] assms
  have "r = zero_result\<lparr>strength := Some ''Invalid options''\<rparr>"
    by simp
  then show ?thesis
    by (simp add: zero_result_fields)
next
  case True
  then obtain opts where p: "p = Some opts"
    by (cases p) (simp_all add: validate_options_def)
  show ?thesis
  proof (cases "\<not> mem PoolAlloc \<or> (avoid_ambiguous (charset opts) \<and> \<not> mem FilteredAlloc) \<or>
         \<not> mem BufferAlloc")
    case True
    from generate_password_memory [OF \<open>validate_options p\<close> [unfolded p] this, of rnd] assms
    have "r = zero_result\<lparr>strength := Some ''Memory error''\<rparr>"
      by (simp add: p)
    then show ?thesis
      by (simp add: zero_result_fields)
  next
    case False
    then have "mem PoolAlloc" "avoid_ambiguous (charset opts) \<longrightarrow> mem FilteredAlloc"
      "mem BufferAlloc"
      by auto
    from generate_password_success [OF \<open>validate_options p\<close> [unfolded p] this assms [unfolded p]]
    obtain pw where pw: "password r = Some pw" "length pw = length_opt opts"
      "strength r = Some (get_strength_category (strength_score r))"
      by blast
    from validate_selects(2) [OF \<open>validate_options p\<close> [unfolded p]] pw(2)
    have "pw \<noteq> []"
      by auto
    with pw(1,3) get_strength_category_label [of "strength_score r"] show ?thesis
      by blast
  qed
qed

lemma pattern_result_shape:
  "(password (generate_password_from_pattern mem rnd q) = None \<and>
    strength (generate_password_from_pattern mem rnd q) \<in>
      Some ` {''Invalid pattern'', ''Memory error'', ''Invalid pattern character'',
              ''Failed to generate character''}) \<or>
   (\<exists>pw. password (generate_password_from_pattern mem rnd q) = Some pw \<and> pw \<noteq> [] \<and>
    strength (generate_password_from_pattern mem rnd q) \<in>
      Some ` {''Very Weak'', ''Weak'', ''Fair'', ''Good'', ''Strong'', ''Very Strong''})"
proof (cases "\<exists>pat. q = Some pat \<and> pat \<noteq> [] \<and> mem PatternAlloc")
  case False
  then have "generate_password_from_pattern mem rnd q = zero_result\<lparr>strength := Some ''Invalid pattern''\<rparr>
     \<or> generate_password_from_pattern mem rnd q = zero_result\<lparr>strength := Some ''Memory error''\<rparr>"
    by (cases q) (auto simp: generate_password_from_pattern_def)
  then show ?thesis
    by (auto simp: zero_result_fields)
next
  case True
  then obtain pat where pat: "q = Some pat" "pat \<noteq> []" "mem PatternAlloc"
    by blast
  show ?thesis
  proof (cases "set pat \<subseteq> pattern_codes")
    case True
    then obtain pw where pw: "pattern_loop rnd 0 [] pat = Inr ([] @ pw)" "length pw = length pat"
      using pattern_loop_valid [of pat rnd 0 "[]"] by blast
    then have "generate_password_from_pattern mem rnd q =
        attach_metadata pw (length pat)
          (password_options_init
                       \<lparr>length_opt := length pat,
                        charset := (charset password_options_init)
                          \<lparr>lowercase := strchr_found pat (CHR ''l''),
                           uppercase := strchr_found pat (CHR ''U''),
                           numbers := strchr_found pat (CHR ''n''),
                           special := strchr_found pat (CHR ''s'')\<rparr>\<rparr>)"
      using pat by (simp add: generate_password_from_pattern_def Let_def)
    moreover have "pw \<noteq> []"
      using pw(2) pat(2) by auto
    ultimately show ?thesis
      using get_strength_category_label by (simp add: attach_metadata_def Let_def)
  next
    case False
    then obtain partial where
      "pattern_loop rnd 0 [] pat = Inl (''Invalid pattern character'', partial)"
      using pattern_loop_invalid [of pat rnd 0 "[]"] by blast
    then have "generate_password_from_pattern mem rnd q =
        zero_result\<lparr>strength := Some ''Invalid pattern character''\<rparr>"
      using pat by (simp add: generate_password_from_pattern_def free_after_failure)
    then show ?thesis
      by (simp add: zero_result_fields)
  qed
qed

section \<open>Claims about password generation\<close>

text \<open>
  Claim C1. The password returned by \<open>generate_password\<close> should satisfy the composition
  constraints of its options. The repair pass protects only the positions it has written
  itself: a later repair may overwrite the single character that satisfied an earlier
  check. For \<open>three_type_options\<close> the drawn buffer \<open>a1111111\<close> has a lowercase letter
  and digits but no uppercase letter; the uppercase repair takes position 0, and the
  returned password \<open>A1111111\<close> has no lowercase letter although all three selected types
  are required. The source's own checker \<open>meets_minimum_requirements\<close> rejects it.
\<close>

theorem repair_drops_required_lowercase:
  "validate_options (Some three_type_options) \<and>
   require_all_types three_type_options \<and> lowercase (charset three_type_options) \<and>
   generate_password all_ok one_lowercase_bytes (Some three_type_options) =
     Some (attach_metadata ''A1111111'' 8 three_type_options) \<and>
   password (attach_metadata ''A1111111'' 8 three_type_options) = Some ''A1111111'' \<and>
   \<not> contains_char_type ''A1111111'' lowercase_chars \<and>
   \<not> meets_minimum_requirements ''A1111111'' three_type_options"
proof -
  have v: "validate_options (Some three_type_options)"
    by (simp add: validate_defs three_type_options_def)
  have fields: "length_opt three_type_options = 8" "require_all_types three_type_options"
    "lowercase (charset three_type_options)"
    "\<not> avoid_ambiguous (charset three_type_options)"
    by (simp_all add: three_type_options_def)
  have pool: "build_char_set (charset three_type_options) =
      ''abcdefghijklmnopqrstuvwxyzABCDEFGHIJKLMNOPQRSTUVWXYZ0123456789''"
    by (simp add: build_char_set_def three_type_options_def cs_defs)
  have len: "length ''abcdefghijklmnopqrstuvwxyzABCDEFGHIJKLMNOPQRSTUVWXYZ0123456789'' = 62"
    by simp
  have drawn: "draw_password one_lowercase_bytes
      ''abcdefghijklmnopqrstuvwxyzABCDEFGHIJKLMNOPQRSTUVWXYZ0123456789'' 8 0 = ''a1111111''"
    by (simp add: draw_password.simps len one_lowercase_bytes_def)
  have repaired: "ensure_minimum_requirements all_ok one_lowercase_bytes 8 ''a1111111''
      three_type_options = Some ''A1111111''"
    by (simp add: repair_defs three_type_options_def one_lowercase_bytes_def all_ok_def)
  have gen: "generate_password all_ok one_lowercase_bytes (Some three_type_options) =
      Some (attach_metadata ''A1111111'' 8 three_type_options)"
    by (simp add: generate_password_def Let_def v fields pool drawn repaired all_ok_def)
  have missing: "\<not> contains_char_type ''A1111111'' lowercase_chars"
    by (simp add: strchr_found_def NUL_def cs_defs)
  then have unmet: "\<not> meets_minimum_requirements ''A1111111'' three_type_options"
    by (simp add: meets_minimum_requirements_def fields)
  have pw: "password (attach_metadata ''A1111111'' 8 three_type_options) = Some ''A1111111''"
    by (simp add: attach_metadata_def Let_def)
  from v fields(2,3) gen pw missing unmet show ?thesis
    by (intro conjI)
qed

text \<open>
  Claim C2. With \<open>avoid_ambiguous\<close> set the password should contain none of \<open>l I 1 O 0\<close>.
  Only the pool of the first draw is filtered; the repair pass draws from the unfiltered
  category strings. For \<open>unambiguous_options\<close> and a random source of zero bytes the
  drawn buffer is \<open>aaaaaaaa\<close>, the digit repair writes \<open>number_chars ! 0\<close>, and the
  returned password \<open>0aaaaaaa\<close> starts with the ambiguous character \<open>0\<close>.
\<close>

theorem repair_inserts_ambiguous_digit:
  "validate_options (Some unambiguous_options) \<and>
   avoid_ambiguous (charset unambiguous_options) \<and>
   generate_password all_ok zero_bytes (Some unambiguous_options) =
     Some (attach_metadata ''0aaaaaaa'' 8 unambiguous_options) \<and>
   password (attach_metadata ''0aaaaaaa'' 8 unambiguous_options) = Some ''0aaaaaaa'' \<and>
   CHR ''0'' \<in> set ''0aaaaaaa'' \<and> CHR ''0'' \<in> set ambiguous_chars"
proof -
  have v: "validate_options (Some unambiguous_options)"
    by (simp add: validate_defs unambiguous_options_def)
  have fields: "length_opt unambiguous_options = 8" "require_all_types unambiguous_options"
    "avoid_ambiguous (charset unambiguous_options)"
    by (simp_all add: unambiguous_options_def)
  have pool: "remove_ambiguous (build_char_set (charset unambiguous_options)) =
      ''abcdefghijkmnopqrstuvwxyz23456789''"
    by (simp add: remove_ambiguous_def build_char_set_def unambiguous_options_def cs_defs
        strchr_found_def ambiguous_chars_def NUL_def)
  have len: "length ''abcdefghijkmnopqrstuvwxyz23456789'' = 33"
    by simp
  have drawn: "draw_password zero_bytes ''abcdefghijkmnopqrstuvwxyz23456789'' 8 0 = ''aaaaaaaa''"
    by (simp add: draw_password.simps len zero_bytes_def)
  have repaired: "ensure_minimum_requirements all_ok zero_bytes 8 ''aaaaaaaa''
      unambiguous_options = Some ''0aaaaaaa''"
    by (simp add: repair_defs unambiguous_options_def zero_bytes_def all_ok_def)
  have ne: "build_char_set (charset unambiguous_options) \<noteq> []"
    using pool_nonempty [OF v] by simp
  have gen: "generate_password all_ok zero_bytes (Some unambiguous_options) =
      Some (attach_metadata ''0aaaaaaa'' 8 unambiguous_options)"
    using ne by (simp add: generate_password_def Let_def v fields pool drawn repaired all_ok_def)
  have pw: "password (attach_metadata ''0aaaaaaa'' 8 unambiguous_options) = Some ''0aaaaaaa''"
    by (simp add: attach_metadata_def Let_def)
  have amb: "CHR ''0'' \<in> set ''0aaaaaaa''" "CHR ''0'' \<in> set ambiguous_chars"
    by (simp_all add: ambiguous_chars_def)
  from v fields(3) gen pw amb show ?thesis
    by (intro conjI)
qed

text \<open>
  Claim C3. The repair pass should terminate for every valid options value. The required
  types may use up to four positions that \<open>validate_options\<close> does not count. For
  \<open>tight_options\<close> and the buffer \<open>aaaaaaaa\<close> the type repairs take positions 0 to 2,
  the digit loop positions 3 to 5, and the loop for special characters positions 6 and 7;
  it then still needs one more character, finds no modifiable position and repeats the
  same state for ever. Neither the repair pass nor \<open>generate_password\<close> returns.
\<close>

theorem repair_never_returns:
  "validate_options (Some tight_options) \<and>
   length ''aaaaaaaa'' = length_opt tight_options \<and>
   ensure_minimum_requirements all_ok zero_bytes 8 ''aaaaaaaa'' tight_options = None \<and>
   generate_password all_ok zero_bytes (Some tight_options) = None"
proof -
  have v: "validate_options (Some tight_options)"
    by (simp add: validate_defs tight_options_def)
  have fields: "length_opt tight_options = 8" "require_all_types tight_options"
    "\<not> avoid_ambiguous (charset tight_options)"
    by (simp_all add: tight_options_def)
  have pool: "build_char_set (charset tight_options) =
      ''abcdefghijklmnopqrstuvwxyzABCDEFGHIJKLMNOPQRSTUVWXYZ0123456789!@#$%^&*''"
    by (simp add: build_char_set_def tight_options_def cs_defs)
  have len: "length ''abcdefghijklmnopqrstuvwxyzABCDEFGHIJKLMNOPQRSTUVWXYZ0123456789!@#$%^&*'' = 70"
    by simp
  have drawn: "draw_password zero_bytes
      ''abcdefghijklmnopqrstuvwxyzABCDEFGHIJKLMNOPQRSTUVWXYZ0123456789!@#$%^&*'' 8 0 = ''aaaaaaaa''"
    by (simp add: draw_password.simps len zero_bytes_def)
  have stuck: "ensure_minimum_requirements all_ok zero_bytes 8 ''aaaaaaaa'' tight_options = None"
    by (simp add: repair_defs tight_options_def zero_bytes_def all_ok_def)
  have gen: "generate_password all_ok zero_bytes (Some tight_options) = None"
    by (simp add: generate_password_def Let_def v fields pool drawn stuck all_ok_def)
  from v fields stuck gen show ?thesis
    by simp
qed

text \<open>
  Claim C5. For a non-empty pattern made only of the codes \<open>l U n s\<close>, and when the buffer
  can be allocated, \<open>generate_password_from_pattern\<close> returns a password as long as
  the pattern whose \<open>i\<close>-th character belongs to the category named by the \<open>i\<close>-th code.
  For a non-empty pattern with any other character the result has no password, length 0
  and a failure reason.
\<close>

theorem pattern_generation:
  assumes "pat \<noteq> []"
  shows "(set pat \<subseteq> pattern_codes \<and> mem PatternAlloc \<longrightarrow>
            (\<exists>pw. password (generate_password_from_pattern mem rnd (Some pat)) = Some pw \<and>
                  length_res (generate_password_from_pattern mem rnd (Some pat)) = length pat \<and>
                  length pw = length pat \<and>
                  (\<forall>i < length pat. code_matches (pat ! i) (pw ! i)))) \<and>
         (\<not> set pat \<subseteq> pattern_codes \<longrightarrow>
            password (generate_password_from_pattern mem rnd (Some pat)) = None \<and>
            length_res (generate_password_from_pattern mem rnd (Some pat)) = 0 \<and>
            strength (generate_password_from_pattern mem rnd (Some pat)) =
              Some (if mem PatternAlloc then ''Invalid pattern character'' else ''Memory error''))"
proof (intro conjI impI)
  assume ok: "set pat \<subseteq> pattern_codes \<and> mem PatternAlloc"
  then obtain pw where pw: "pattern_loop rnd 0 [] pat = Inr ([] @ pw)" "length pw = length pat"
      "\<forall>i < length pat. code_matches (pat ! i) (pw ! i)"
    using pattern_loop_valid [of pat rnd 0 "[]"] by blast
  have "password (generate_password_from_pattern mem rnd (Some pat)) = Some pw"
    and "length_res (generate_password_from_pattern mem rnd (Some pat)) = length pat"
    using assms ok pw(1)
    by (simp_all add: generate_password_from_pattern_def attach_metadata_def Let_def)
  with pw(2,3)
  show "\<exists>pw. password (generate_password_from_pattern mem rnd (Some pat)) = Some pw \<and>
          length_res (generate_password_from_pattern mem rnd (Some pat)) = length pat \<and>
          length pw = length pat \<and> (\<forall>i < length pat. code_matches (pat ! i) (pw ! i))"
    by blast
next
  assume bad: "\<not> set pat \<subseteq> pattern_codes"
  then obtain partial where
    "pattern_loop rnd 0 [] pat = Inl (''Invalid pattern character'', partial)"
    using pattern_loop_invalid [of pat rnd 0 "[]"] by blast
  then have r: "generate_password_from_pattern mem rnd (Some pat) =
      zero_result\<lparr>strength :=
        Some (if mem PatternAlloc then ''Invalid pattern character'' else ''Memory error'')\<rparr>"
    using assms by (simp add: generate_password_from_pattern_def free_after_failure)
  show "password (generate_password_from_pattern mem rnd (Some pat)) = None"
    and "length_res (generate_password_from_pattern mem rnd (Some pat)) = 0"
    and "strength (generate_password_from_pattern mem rnd (Some pat)) =
      Some (if mem PatternAlloc then ''Invalid pattern character'' else ''Memory error'')"
    unfolding r by (simp_all add: zero_result_def)
qed

theorem pattern_generation_witness:
  "\<forall>rnd. password (generate_password_from_pattern all_ok rnd (Some ''llxnss'')) = None \<and>
     (\<exists>pw. password (generate_password_from_pattern all_ok rnd (Some ''llUnss'')) = Some pw \<and>
      length pw = 6 \<and>
      pw ! 0 \<in> set lowercase_chars \<and> pw ! 1 \<in> set lowercase_chars \<and>
      pw ! 2 \<in> set uppercase_chars \<and> pw ! 3 \<in> set number_chars \<and>
      pw ! 4 \<in> set special_chars \<and> pw ! 5 \<in> set special_chars)"
proof (intro allI conjI)
  fix rnd
  have "''llxnss'' \<noteq> []" and "\<not> set ''llxnss'' \<subseteq> pattern_codes"
    by simp_all
  with pattern_generation [of "''llxnss''" all_ok rnd]
  show "password (generate_password_from_pattern all_ok rnd (Some ''llxnss'')) = None"
    by blast
next
  fix rnd
  have ne: "''llUnss'' \<noteq> []"
    by simp
  have "set ''llUnss'' \<subseteq> pattern_codes \<and> all_ok PatternAlloc"
    by (simp add: all_ok_def)
  with pattern_generation [OF ne, of all_ok rnd]
  obtain pw where pw: "password (generate_password_from_pattern all_ok rnd (Some ''llUnss'')) = Some pw"
    "length pw = length ''llUnss''"
    "\<forall>i < length ''llUnss''. code_matches (''llUnss'' ! i) (pw ! i)"
    by blast
  from pw(3) have "code_matches (''llUnss'' ! 0) (pw ! 0)" "code_matches (''llUnss'' ! 1) (pw ! 1)"
    "code_matches (''llUnss'' ! 2) (pw ! 2)" "code_matches (''llUnss'' ! 3) (pw ! 3)"
    "code_matches (''llUnss'' ! 4) (pw ! 4)" "code_matches (''llUnss'' ! 5) (pw ! 5)"
    by simp_all
  then have "pw ! 0 \<in> set lowercase_chars \<and> pw ! 1 \<in> set lowercase_chars \<and>
      pw ! 2 \<in> set uppercase_chars \<and> pw ! 3 \<in> set number_chars \<and>
      pw ! 4 \<in> set special_chars \<and> pw ! 5 \<in> set special_chars"
    by simp
  with pw(1,2) show "\<exists>pw. password (generate_password_from_pattern all_ok rnd (Some ''llUnss'')) = Some pw \<and>
      length pw = 6 \<and>
      pw ! 0 \<in> set lowercase_chars \<and> pw ! 1 \<in> set lowercase_chars \<and>
      pw ! 2 \<in> set uppercase_chars \<and> pw ! 3 \<in> set number_chars \<and>
      pw ! 4 \<in> set special_chars \<and> pw ! 5 \<in> set special_chars"
    by simp
qed

text \<open>
  The failures that the generators report. Absent or invalid options, a refused pool,
  filtered pool or password buffer, an absent, empty or invalid pattern and a refused
  pattern buffer each return the zeroed result with a reason in \<open>strength\<close>; every
  result either has no password and one of the failure reasons, or a non-empty password
  and one of the six strength labels, which are disjoint from the reasons. The functions
  have no exit other than returning a result. The array of the repair pass, the fourth
  allocation of \<open>generate_password\<close>, is not covered here.
\<close>

lemma reported_failures_are_empty:
  "generate_password mem rnd None = Some (zero_result\<lparr>strength := Some ''Invalid options''\<rparr>) \<and>
   (\<not> validate_options (Some opts) \<longrightarrow>
      generate_password mem rnd (Some opts) =
        Some (zero_result\<lparr>strength := Some ''Invalid options''\<rparr>)) \<and>
   (validate_options (Some opts) \<and>
    (\<not> mem PoolAlloc \<or> (avoid_ambiguous (charset opts) \<and> \<not> mem FilteredAlloc) \<or>
     \<not> mem BufferAlloc) \<longrightarrow>
      generate_password mem rnd (Some opts) =
        Some (zero_result\<lparr>strength := Some ''Memory error''\<rparr>)) \<and>
   (\<forall>r. generate_password mem rnd p = Some r \<longrightarrow>
      (password r = None \<and>
       strength r \<in> Some ` {''Invalid options'', ''Memory error'', ''No character set selected''}) \<or>
      (\<exists>pw. password r = Some pw \<and> pw \<noteq> [] \<and>
       strength r \<in> Some ` {''Very Weak'', ''Weak'', ''Fair'', ''Good'', ''Strong'', ''Very Strong''})) \<and>
   generate_password_from_pattern mem rnd None =
     zero_result\<lparr>strength := Some ''Invalid pattern''\<rparr> \<and>
   generate_password_from_pattern mem rnd (Some []) =
     zero_result\<lparr>strength := Some ''Invalid pattern''\<rparr> \<and>
   (pat \<noteq> [] \<and> \<not> mem PatternAlloc \<longrightarrow>
      generate_password_from_pattern mem rnd (Some pat) =
        zero_result\<lparr>strength := Some ''Memory error''\<rparr>) \<and>
   (pat \<noteq> [] \<and> mem PatternAlloc \<and> \<not> set pat \<subseteq> pattern_codes \<longrightarrow>
      generate_password_from_pattern mem rnd (Some pat) =
        zero_result\<lparr>strength := Some ''Invalid pattern character''\<rparr>) \<and>
   ((password (generate_password_from_pattern mem rnd q) = None \<and>
     strength (generate_password_from_pattern mem rnd q) \<in>
       Some ` {''Invalid pattern'', ''Memory error'', ''Invalid pattern character'',
               ''Failed to generate character''}) \<or>
    (\<exists>pw. password (generate_password_from_pattern mem rnd q) = Some pw \<and> pw \<noteq> [] \<and>
     strength (generate_password_from_pattern mem rnd q) \<in>
       Some ` {''Very Weak'', ''Weak'', ''Fair'', ''Good'', ''Strong'', ''Very Strong''})) \<and>
   password (zero_result\<lparr>strength := reason\<rparr>) = None"
proof -
  have a: "generate_password mem rnd None =
      Some (zero_result\<lparr>strength := Some ''Invalid options''\<rparr>)"
    by (simp add: generate_password_def)
  have b: "\<not> validate_options (Some opts) \<longrightarrow>
      generate_password mem rnd (Some opts) =
        Some (zero_result\<lparr>strength := Some ''Invalid options''\<rparr>)"
    by (simp add: generate_password_invalid)
  have c: "validate_options (Some opts) \<and>
    (\<not> mem PoolAlloc \<or> (avoid_ambiguous (charset opts) \<and> \<not> mem FilteredAlloc) \<or>
     \<not> mem BufferAlloc) \<longrightarrow>
      generate_password mem rnd (Some opts) =
        Some (zero_result\<lparr>strength := Some ''Memory error''\<rparr>)"
  proof
    assume h: "validate_options (Some opts) \<and>
      (\<not> mem PoolAlloc \<or> (avoid_ambiguous (charset opts) \<and> \<not> mem FilteredAlloc) \<or>
       \<not> mem BufferAlloc)"
    then have "validate_options (Some opts)"
      and "\<not> mem PoolAlloc \<or> (avoid_ambiguous (charset opts) \<and> \<not> mem FilteredAlloc) \<or>
       \<not> mem BufferAlloc"
      by simp_all
    then show "generate_password mem rnd (Some opts) =
        Some (zero_result\<lparr>strength := Some ''Memory error''\<rparr>)"
      by (rule generate_password_memory)
  qed
  have d: "\<forall>r. generate_password mem rnd p = Some r \<longrightarrow>
      (password r = None \<and>
       strength r \<in> Some ` {''Invalid options'', ''Memory error'', ''No character set selected''}) \<or>
      (\<exists>pw. password r = Some pw \<and> pw \<noteq> [] \<and>
       strength r \<in> Some ` {''Very Weak'', ''Weak'', ''Fair'', ''Good'', ''Strong'', ''Very Strong''})"
    by (intro allI impI) (rule generate_password_shape)
  have e: "generate_password_from_pattern mem rnd None =
     zero_result\<lparr>strength := Some ''Invalid pattern''\<rparr>"
    "generate_password_from_pattern mem rnd (Some []) =
     zero_result\<lparr>strength := Some ''Invalid pattern''\<rparr>"
    by (simp_all add: generate_password_from_pattern_def)
  have f: "pat \<noteq> [] \<and> \<not> mem PatternAlloc \<longrightarrow>
      generate_password_from_pattern mem rnd (Some pat) =
        zero_result\<lparr>strength := Some ''Memory error''\<rparr>"
    by (simp add: generate_password_from_pattern_def)
  have g: "pat \<noteq> [] \<and> mem PatternAlloc \<and> \<not> set pat \<subseteq> pattern_codes \<longrightarrow>
      generate_password_from_pattern mem rnd (Some pat) =
        zero_result\<lparr>strength := Some ''Invalid pattern character''\<rparr>"
  proof
    assume h: "pat \<noteq> [] \<and> mem PatternAlloc \<and> \<not> set pat \<subseteq> pattern_codes"
    then obtain partial where
      "pattern_loop rnd 0 [] pat = Inl (''Invalid pattern character'', partial)"
      using pattern_loop_invalid [of pat rnd 0 "[]"] by blast
    with h show "generate_password_from_pattern mem rnd (Some pat) =
        zero_result\<lparr>strength := Some ''Invalid pattern character''\<rparr>"
      by (simp add: generate_password_from_pattern_def free_after_failure)
  qed
  note h = pattern_result_shape [of mem rnd q]
  have i: "password (zero_result\<lparr>strength := reason\<rparr>) = None"
    by (simp add: zero_result_def)
  from a b c d e f g h i show ?thesis
    by (intro conjI)
qed

lemma reported_failures_are_empty_example:
  "generate_password all_ok zero_bytes (Some (password_options_init\<lparr>length_opt := 4\<rparr>)) =
     Some (zero_result\<lparr>strength := Some ''Invalid options''\<rparr>) \<and>
   generate_password (\<lambda>site. False) zero_bytes (Some password_options_init) =
     Some (zero_result\<lparr>strength := Some ''Memory error''\<rparr>) \<and>
   generate_password_from_pattern (\<lambda>site. False) zero_bytes (Some ''llUnss'') =
     zero_result\<lparr>strength := Some ''Memory error''\<rparr> \<and>
   generate_password_from_pattern all_ok zero_bytes (Some ''llxnss'') =
     zero_result\<lparr>strength := Some ''Invalid pattern character''\<rparr>"
proof -
  have v: "validate_options (Some password_options_init)"
    "\<not> validate_options (Some (password_options_init\<lparr>length_opt := 4\<rparr>))"
    by (simp_all add: validate_options_def MIN_PASSWORD_LENGTH_def MAX_PASSWORD_LENGTH_def
        selected_types_def size_add_def SIZE_MOD_def password_options_init_def)
  have p: "''llUnss'' \<noteq> [] \<and> \<not> (\<lambda>site. False) PatternAlloc"
    "''llxnss'' \<noteq> [] \<and> all_ok PatternAlloc \<and> \<not> set ''llxnss'' \<subseteq> pattern_codes"
    by (simp_all add: all_ok_def)
  have m: "validate_options (Some password_options_init) \<and>
    (\<not> (\<lambda>site. False) PoolAlloc \<or>
     (avoid_ambiguous (charset password_options_init) \<and> \<not> (\<lambda>site. False) FilteredAlloc) \<or>
     \<not> (\<lambda>site. False) BufferAlloc)"
    using v(1) by simp
  note t1 = reported_failures_are_empty
    [of all_ok zero_bytes "password_options_init\<lparr>length_opt := 4\<rparr>" None "[]" None None]
  note t2 = reported_failures_are_empty
    [of "\<lambda>site. False" zero_bytes password_options_init None "''llUnss''" None None]
  note t3 = reported_failures_are_empty
    [of all_ok zero_bytes password_options_init None "''llxnss''" None None]
  from t1 [THEN conjunct2, THEN conjunct1] v(2)
  have w1: "generate_password all_ok zero_bytes
      (Some (password_options_init\<lparr>length_opt := 4\<rparr>)) =
     Some (zero_result\<lparr>strength := Some ''Invalid options''\<rparr>)"
    by (rule mp)
  from t2 [THEN conjunct2, THEN conjunct2, THEN conjunct1] m
  have w2: "generate_password (\<lambda>site. False) zero_bytes (Some password_options_init) =
     Some (zero_result\<lparr>strength := Some ''Memory error''\<rparr>)"
    by (rule mp)
  from t2 [THEN conjunct2, THEN conjunct2, THEN conjunct2, THEN conjunct2, THEN conjunct2,
      THEN conjunct2, THEN conjunct1] p(1)
  have w3: "generate_password_from_pattern (\<lambda>site. False) zero_bytes (Some ''llUnss'') =
     zero_result\<lparr>strength := Some ''Memory error''\<rparr>"
    by (rule mp)
  from t3 [THEN conjunct2, THEN conjunct2, THEN conjunct2, THEN conjunct2, THEN conjunct2,
      THEN conjunct2, THEN conjunct2, THEN conjunct1] p(2)
  have w4: "generate_password_from_pattern all_ok zero_bytes (Some ''llxnss'') =
     zero_result\<lparr>strength := Some ''Invalid pattern character''\<rparr>"
    by (rule mp)
  from w1 w2 w3 w4 show ?thesis
    by (intro conjI)
qed

text \<open>
  Claim C6. Every failure path of the generators, a failed allocation among them, should
  return no password and a reason in \<open>strength\<close>. \<open>generate_password\<close> allocates four
  times. Three of the sites return the zeroed result with \<open>Memory error\<close>; the fourth,
  the array of the repair pass, leaves \<open>ensure_minimum_requirements\<close> by a bare
  \<^verbatim>\<open>return\<close>, and the caller cannot tell. For \<open>unambiguous_options\<close>, a random source
  of zero bytes and an allocator that refuses only that array, the drawn buffer
  \<open>aaaaaaaa\<close> is returned unrepaired with a strength label and no reason, although a
  digit is required; when the password buffer is refused instead, the same call returns
  \<open>Memory error\<close>.
\<close>

theorem repair_allocation_failure_unreported:
  "validate_options (Some unambiguous_options) \<and>
   require_all_types unambiguous_options \<and> numbers (charset unambiguous_options) \<and>
   \<not> repair_array_refused ModifiableAlloc \<and>
   ensure_minimum_requirements repair_array_refused zero_bytes 8 ''aaaaaaaa''
     unambiguous_options = Some ''aaaaaaaa'' \<and>
   generate_password repair_array_refused zero_bytes (Some unambiguous_options) =
     Some (attach_metadata ''aaaaaaaa'' 8 unambiguous_options) \<and>
   password (attach_metadata ''aaaaaaaa'' 8 unambiguous_options) = Some ''aaaaaaaa'' \<and>
   strength (attach_metadata ''aaaaaaaa'' 8 unambiguous_options) =
     Some (get_strength_category
       (strength_score (attach_metadata ''aaaaaaaa'' 8 unambiguous_options))) \<and>
   strength (attach_metadata ''aaaaaaaa'' 8 unambiguous_options) \<noteq> Some ''Memory error'' \<and>
   \<not> contains_char_type ''aaaaaaaa'' number_chars \<and>
   \<not> meets_minimum_requirements ''aaaaaaaa'' unambiguous_options \<and>
   generate_password buffer_refused zero_bytes (Some unambiguous_options) =
     Some (zero_result\<lparr>strength := Some ''Memory error''\<rparr>)"
proof -
  have v: "validate_options (Some unambiguous_options)"
    by (simp add: validate_defs unambiguous_options_def)
  have fields: "length_opt unambiguous_options = 8" "require_all_types unambiguous_options"
    "avoid_ambiguous (charset unambiguous_options)" "numbers (charset unambiguous_options)"
    by (simp_all add: unambiguous_options_def)
  have sites: "\<not> repair_array_refused ModifiableAlloc" "repair_array_refused PoolAlloc"
    "repair_array_refused FilteredAlloc" "repair_array_refused BufferAlloc"
    "\<not> buffer_refused BufferAlloc"
    by (simp_all add: repair_array_refused_def buffer_refused_def)
  have pool: "remove_ambiguous (build_char_set (charset unambiguous_options)) =
      ''abcdefghijkmnopqrstuvwxyz23456789''"
    by (simp add: remove_ambiguous_def build_char_set_def unambiguous_options_def cs_defs
        strchr_found_def ambiguous_chars_def NUL_def)
  have len: "length ''abcdefghijkmnopqrstuvwxyz23456789'' = 33"
    by simp
  have drawn: "draw_password zero_bytes ''abcdefghijkmnopqrstuvwxyz23456789'' 8 0 = ''aaaaaaaa''"
    by (simp add: draw_password.simps len zero_bytes_def)
  have skipped: "ensure_minimum_requirements repair_array_refused zero_bytes 8 ''aaaaaaaa''
      unambiguous_options = Some ''aaaaaaaa''"
    by (simp add: ensure_minimum_requirements_def sites)
  have ne: "build_char_set (charset unambiguous_options) \<noteq> []"
    using pool_nonempty [OF v] by simp
  have gen: "generate_password repair_array_refused zero_bytes (Some unambiguous_options) =
      Some (attach_metadata ''aaaaaaaa'' 8 unambiguous_options)"
    using ne by (simp add: generate_password_def Let_def v fields pool drawn skipped sites)
  have pw: "password (attach_metadata ''aaaaaaaa'' 8 unambiguous_options) = Some ''aaaaaaaa''"
    by (simp add: attach_metadata_def Let_def)
  have label: "strength (attach_metadata ''aaaaaaaa'' 8 unambiguous_options) =
      Some (get_strength_category
        (strength_score (attach_metadata ''aaaaaaaa'' 8 unambiguous_options)))"
    by (simp add: attach_metadata_def Let_def)
  have "get_strength_category sc \<noteq> ''Memory error''" for sc
    by (simp add: get_strength_category_def)
  with label have no_reason:
    "strength (attach_metadata ''aaaaaaaa'' 8 unambiguous_options) \<noteq> Some ''Memory error''"
    by simp
  have missing: "\<not> contains_char_type ''aaaaaaaa'' number_chars"
    by (simp add: strchr_found_def NUL_def cs_defs)
  then have unmet: "\<not> meets_minimum_requirements ''aaaaaaaa'' unambiguous_options"
    by (simp add: meets_minimum_requirements_def fields)
  have sibling: "generate_password buffer_refused zero_bytes (Some unambiguous_options) =
      Some (zero_result\<lparr>strength := Some ''Memory error''\<rparr>)"
    using v sites(5) by (simp add: generate_password_memory)
  from v fields(2,4) sites(1) skipped gen pw label no_reason missing unmet sibling show ?thesis
    by (intro conjI)
qed

section \<open>Properties of the security assessment\<close>

lemmas ctype_defs = isdigit_def isupper_def islower_def isalpha_def tolower_def char_int_def

lemmas weak_scan_defs = check_weak_patterns_def weak_patterns_def sequential_scan.simps
  repeated_scan.simps row_scan.simps keyboard_rows_def sequential_run_def char_at_def
  size_sub_def SIZE_MOD_def NUL_def

lemma starts_with_set: "starts_with needle hay \<Longrightarrow> set needle \<subseteq> set hay"
  by (induction needle hay rule: starts_with.induct) auto

lemma strstr_found_set: "strstr_found hay needle \<Longrightarrow> set needle \<subseteq> set hay"
proof (induction hay)
  case Nil
  then show ?case by simp
next
  case (Cons h hs)
  from Cons.prems have "starts_with needle (h # hs) \<or> strstr_found hs needle"
    by simp
  then show ?case
  proof
    assume "starts_with needle (h # hs)"
    then show ?thesis by (rule starts_with_set)
  next
    assume "strstr_found hs needle"
    then have "set needle \<subseteq> set hs" by (rule Cons.IH)
    then show ?thesis by auto
  qed
qed

lemma contains_word_set:
  "contains_word s ws \<Longrightarrow> \<exists>w \<in> set ws. set w \<subseteq> set s"
  by (induction ws) (auto dest: strstr_found_set split: if_splits)

lemma take_cut:
  "take (if length (take 255 pw) \<ge> 256 then 256 - 1 else length (take 255 pw)) (take 255 pw) =
   take (if length pw \<ge> 256 then 256 - 1 else length pw) pw"
  by (simp add: min_def)

lemma no_word_in_x: "\<not> contains_word (replicate 255 (CHR ''x'')) dictionary_words"
proof
  assume "contains_word (replicate 255 (CHR ''x'')) dictionary_words"
  then obtain w where "w \<in> set dictionary_words" "set w \<subseteq> set (replicate 255 (CHR ''x''))"
    using contains_word_set by blast
  then show False
    by (simp add: dictionary_words_def) (elim disjE; simp)
qed

lemma ex_from_split:
  fixes i n :: nat
  assumes "i < n"
  shows "(\<exists>j. i \<le> j \<and> j < n \<and> P j) \<longleftrightarrow> P i \<or> (\<exists>j. i + 1 \<le> j \<and> j < n \<and> P j)"
proof
  assume "\<exists>j. i \<le> j \<and> j < n \<and> P j"
  then obtain j where j: "i \<le> j" "j < n" "P j"
    by blast
  show "P i \<or> (\<exists>j. i + 1 \<le> j \<and> j < n \<and> P j)"
  proof (cases "j = i")
    case True
    with j show ?thesis by simp
  next
    case False
    with j have "i + 1 \<le> j" by simp
    with j show ?thesis by blast
  qed
next
  assume "P i \<or> (\<exists>j. i + 1 \<le> j \<and> j < n \<and> P j)"
  then show "\<exists>j. i \<le> j \<and> j < n \<and> P j"
  proof
    assume "P i"
    with assms show ?thesis by blast
  next
    assume "\<exists>j. i + 1 \<le> j \<and> j < n \<and> P j"
    then obtain j where "i + 1 \<le> j" "j < n" "P j" by blast
    then have "i \<le> j \<and> j < n \<and> P j" by simp
    then show ?thesis by blast
  qed
qed

lemma class_disjoint:
  "islower c \<Longrightarrow> \<not> isupper c" "islower c \<Longrightarrow> \<not> isdigit c" "isupper c \<Longrightarrow> \<not> isdigit c"
  by (simp_all add: islower_def isupper_def isdigit_def)

lemma char_at_in: "i < length pw \<Longrightarrow> char_at pw i = Inr (pw ! i)"
  by (simp add: char_at_def)

lemma classify_flags:
  "has_lower (classify c v) \<longleftrightarrow> has_lower v \<or> islower c"
  "has_upper (classify c v) \<longleftrightarrow> has_upper v \<or> isupper c"
  "has_digit (classify c v) \<longleftrightarrow> has_digit v \<or> isdigit c"
  "has_special (classify c v) \<longleftrightarrow> has_special v \<or> (\<not> islower c \<and> \<not> isupper c \<and> \<not> isdigit c)"
  using class_disjoint [of c] by (auto simp: classify_def)

lemma scan_classes_flags:
  assumes "n \<le> length pw"
  shows "\<exists>v'. scan_classes pw n i v = Inr v' \<and>
     (has_lower v' \<longleftrightarrow> has_lower v \<or> (\<exists>j. i \<le> j \<and> j < n \<and> islower (pw ! j))) \<and>
     (has_upper v' \<longleftrightarrow> has_upper v \<or> (\<exists>j. i \<le> j \<and> j < n \<and> isupper (pw ! j))) \<and>
     (has_digit v' \<longleftrightarrow> has_digit v \<or> (\<exists>j. i \<le> j \<and> j < n \<and> isdigit (pw ! j))) \<and>
     (has_special v' \<longleftrightarrow> has_special v \<or>
        (\<exists>j. i \<le> j \<and> j < n \<and> \<not> islower (pw ! j) \<and> \<not> isupper (pw ! j) \<and> \<not> isdigit (pw ! j)))"
  using assms
proof (induction pw n i v rule: scan_classes.induct)
  case (1 pw n i v)
  show ?case
  proof (cases "i < n")
    case False
    then show ?thesis
      by (subst scan_classes.simps) auto
  next
    case True
    with "1.prems" have rd: "char_at pw i = Inr (pw ! i)"
      by (simp add: char_at_in)
    from "1.IH" [OF True rd "1.prems"]
    obtain v' where v': "scan_classes pw n (i + 1) (classify (pw ! i) v) = Inr v'"
      and l: "has_lower v' \<longleftrightarrow> has_lower (classify (pw ! i) v) \<or>
              (\<exists>j. i + 1 \<le> j \<and> j < n \<and> islower (pw ! j))"
      and u: "has_upper v' \<longleftrightarrow> has_upper (classify (pw ! i) v) \<or>
              (\<exists>j. i + 1 \<le> j \<and> j < n \<and> isupper (pw ! j))"
      and d: "has_digit v' \<longleftrightarrow> has_digit (classify (pw ! i) v) \<or>
              (\<exists>j. i + 1 \<le> j \<and> j < n \<and> isdigit (pw ! j))"
      and s: "has_special v' \<longleftrightarrow> has_special (classify (pw ! i) v) \<or>
              (\<exists>j. i + 1 \<le> j \<and> j < n \<and> \<not> islower (pw ! j) \<and> \<not> isupper (pw ! j) \<and>
                   \<not> isdigit (pw ! j))"
      by blast
    note split = ex_from_split [OF True]
    have "scan_classes pw n i v = Inr v'"
      using True rd v' by (subst scan_classes.simps) simp
    moreover have "has_lower v' \<longleftrightarrow> has_lower v \<or> (\<exists>j. i \<le> j \<and> j < n \<and> islower (pw ! j))"
      unfolding l classify_flags split [of "\<lambda>j. islower (pw ! j)"] by blast
    moreover have "has_upper v' \<longleftrightarrow> has_upper v \<or> (\<exists>j. i \<le> j \<and> j < n \<and> isupper (pw ! j))"
      unfolding u classify_flags split [of "\<lambda>j. isupper (pw ! j)"] by blast
    moreover have "has_digit v' \<longleftrightarrow> has_digit v \<or> (\<exists>j. i \<le> j \<and> j < n \<and> isdigit (pw ! j))"
      unfolding d classify_flags split [of "\<lambda>j. isdigit (pw ! j)"] by blast
    moreover have "has_special v' \<longleftrightarrow> has_special v \<or>
        (\<exists>j. i \<le> j \<and> j < n \<and> \<not> islower (pw ! j) \<and> \<not> isupper (pw ! j) \<and> \<not> isdigit (pw ! j))"
      unfolding s classify_flags
        split [of "\<lambda>j. \<not> islower (pw ! j) \<and> \<not> isupper (pw ! j) \<and> \<not> isdigit (pw ! j)"]
      by blast
    ultimately show ?thesis
      by blast
  qed
qed

lemma scan_middle_value:
  assumes "n \<le> length pw"
  shows "scan_middle pw n i = Inr (\<exists>j. i \<le> j \<and> j < n \<and> \<not> isalpha (pw ! j))"
  using assms
proof (induction pw n i rule: scan_middle.induct)
  case (1 pw n i)
  show ?case
  proof (cases "i < n")
    case False
    then show ?thesis
      by (subst scan_middle.simps) auto
  next
    case True
    with "1.prems" have rd: "char_at pw i = Inr (pw ! i)"
      by (simp add: char_at_in)
    note split = ex_from_split [OF True, of "\<lambda>j. \<not> isalpha (pw ! j)"]
    show ?thesis
    proof (cases "isalpha (pw ! i)")
      case False
      then show ?thesis
        using True rd split by (subst scan_middle.simps) simp
    next
      case alpha: True
      from "1.IH" [OF True rd _ "1.prems"] alpha
      have "scan_middle pw n (i + 1) = Inr (\<exists>j. i + 1 \<le> j \<and> j < n \<and> \<not> isalpha (pw ! j))"
        by simp
      then show ?thesis
        using True rd alpha split by (subst scan_middle.simps) simp
    qed
  qed
qed

lemma ex_index_set: "(\<exists>j. 0 \<le> j \<and> j < length pw \<and> P (pw ! j)) \<longleftrightarrow> (\<exists>c \<in> set pw. P c)"
proof
  assume "\<exists>j. 0 \<le> j \<and> j < length pw \<and> P (pw ! j)"
  then obtain j where "j < length pw" "P (pw ! j)"
    by blast
  then have "pw ! j \<in> set pw \<and> P (pw ! j)"
    by simp
  then show "\<exists>c \<in> set pw. P c"
    by blast
next
  assume "\<exists>c \<in> set pw. P c"
  then obtain c where "c \<in> set pw" "P c"
    by blast
  then obtain j where "j < length pw" "pw ! j = c"
    by (auto simp: in_set_conv_nth)
  with \<open>P c\<close> show "\<exists>j. 0 \<le> j \<and> j < length pw \<and> P (pw ! j)"
    by auto
qed

lemma variety_points_value:
  "variety_points v =
     10 * (of_bool (has_lower v) + of_bool (has_upper v) + of_bool (has_digit v) +
           of_bool (has_special v))"
  unfolding variety_points_def variety_count_def
  by (cases "has_lower v"; cases "has_upper v"; cases "has_digit v"; cases "has_special v";
      simp)

lemma cap_arith:
  fixes a :: int
  shows "(if (if c then (if b then a + 10 else a) + 10 else (if b then a + 10 else a)) > 100
          then 100
          else (if c then (if b then a + 10 else a) + 10 else (if b then a + 10 else a))) =
         min 100 (a + (if b then 10 else 0) + (if c then 10 else 0))"
  by (cases b; cases c; simp add: min_def)

lemma calculate_strength_score_unfold:
  assumes "\<not> n < 8"
    and "scan_classes pw n 0 no_classes = Inr v"
    and "scan_middle pw (size_sub n 1) 1 = Inr bonus"
  shows "calculate_strength_score (Some pw) n =
     Inr (min 100 (length_points n + variety_points v + (if bonus then 10 else 0) +
                   (if has_lower v \<and> has_upper v \<and> has_digit v then 10 else 0)))"
proof -
  let ?a = "length_points n + variety_points v"
  let ?c = "has_lower v \<and> has_upper v \<and> has_digit v"
  have ge: "(8 \<le> n) = True" and lt: "(n < 8) = False"
    using assms(1) by simp_all
  have "calculate_strength_score (Some pw) n =
      Inr (if (if ?c then (if bonus then ?a + 10 else ?a) + 10
               else (if bonus then ?a + 10 else ?a)) > 100 then 100
           else (if ?c then (if bonus then ?a + 10 else ?a) + 10
                 else (if bonus then ?a + 10 else ?a)))"
    by (simp only: calculate_strength_score_def option.case MIN_PASSWORD_LENGTH_def lt ge
        if_False Let_def assms(2,3) sum.case simp_thms)
  also have "\<dots> = Inr (min 100 (?a + (if bonus then 10 else 0) + (if ?c then 10 else 0)))"
    by (simp only: cap_arith)
  finally show ?thesis .
qed

lemma length_points_value:
  "\<not> n < 8 \<Longrightarrow> length_points n = (if n \<ge> 12 then 40 else if n \<ge> 10 then 30 else 20)"
  by (simp add: length_points_def)

lemma calculate_strength_score_range:
  assumes "calculate_strength_score p n = Inr b"
  shows "0 \<le> b \<and> b \<le> 100"
proof (cases "p = None \<or> n < 8")
  case True
  with assms have "b = 0"
    by (cases p) (auto simp: calculate_strength_score_def MIN_PASSWORD_LENGTH_def)
  then show ?thesis
    by simp
next
  case False
  then obtain pw where p: "p = Some pw" and n: "\<not> n < 8"
    by (cases p) auto
  from assms p n obtain v where v: "scan_classes pw n 0 no_classes = Inr v"
    by (cases "scan_classes pw n 0 no_classes")
      (simp_all add: calculate_strength_score_def MIN_PASSWORD_LENGTH_def Let_def)
  from assms p n v obtain bonus where m: "scan_middle pw (size_sub n 1) 1 = Inr bonus"
    by (cases "scan_middle pw (size_sub n 1) 1")
      (simp_all add: calculate_strength_score_def MIN_PASSWORD_LENGTH_def Let_def)
  from assms calculate_strength_score_unfold [OF n v m]
  have b: "b = min 100 (length_points n + variety_points v + (if bonus then 10 else 0) +
                   (if has_lower v \<and> has_upper v \<and> has_digit v then 10 else 0))"
    by (simp add: p)
  have "0 \<le> length_points n" "0 \<le> variety_points v"
    by (simp_all add: length_points_def variety_points_def)
  then have "0 \<le> length_points n + variety_points v + (if bonus then 10 else 0) +
                   (if has_lower v \<and> has_upper v \<and> has_digit v then 10 else 0)"
    by simp
  then show ?thesis
    unfolding b by simp
qed

lemma c_div_nonneg: "0 \<le> a \<Longrightarrow> 0 < b \<Longrightarrow> c_div a b = a div b"
  by (simp add: c_div_def)

lemma category_of_score_thresholds:
  assumes "0 \<le> s" and "s \<le> 100"
  shows "category_of_score s =
     (if s < 20 then STRENGTH_VERY_WEAK
      else if s < 40 then STRENGTH_WEAK
      else if s < 60 then STRENGTH_FAIR
      else if s < 80 then STRENGTH_GOOD
      else if s < 100 then STRENGTH_STRONG
      else STRENGTH_VERY_STRONG)"
proof -
  have q: "c_div s 20 = s div 20"
    using assms by (simp add: c_div_nonneg)
  consider (a) "s < 20" | (b) "20 \<le> s" "s < 40" | (c) "40 \<le> s" "s < 60"
    | (d) "60 \<le> s" "s < 80" | (e) "80 \<le> s" "s < 100" | (f) "s = 100"
    using assms by linarith
  then show ?thesis
  proof cases
    case a
    with assms have "s div 20 = 0" by presburger
    with a show ?thesis by (simp add: category_of_score_def q)
  next
    case b
    then have "s div 20 = 1" by presburger
    with b show ?thesis by (simp add: category_of_score_def q)
  next
    case c
    then have "s div 20 = 2" by presburger
    with c show ?thesis by (simp add: category_of_score_def q)
  next
    case d
    then have "s div 20 = 3" by presburger
    with d show ?thesis by (simp add: category_of_score_def q)
  next
    case e
    then have "s div 20 = 4" by presburger
    with e show ?thesis by (simp add: category_of_score_def q)
  next
    case f
    then show ?thesis by (simp add: category_of_score_def c_div_def)
  qed
qed

lemma scaled_range:
  fixes x :: int
  assumes "0 \<le> x" and "x \<le> 100" and "0 \<le> k" and "k \<le> 100"
  shows "0 \<le> x * k div 100 \<and> x * k div 100 \<le> 100"
proof -
  have "0 \<le> x * k"
    using assms by simp
  then have lo: "0 \<le> x * k div 100"
    by (simp add: pos_imp_zdiv_nonneg_iff)
  have "x * k \<le> 100 * 100"
    using assms by (intro mult_mono) simp_all
  then have "x * k div 100 \<le> 100 * 100 div 100"
    by (intro zdiv_mono1) simp_all
  with lo show ?thesis
    by simp
qed

lemma penalty_range:
  fixes base :: int
  assumes "0 \<le> base" and "base \<le> 100"
  shows "c_div (base * 70) 100 = base * 70 div 100"
    and "0 \<le> base * 70 div 100 \<and> base * 70 div 100 \<le> 100"
    and "c_div (base * 60) 100 = base * 60 div 100"
    and "0 \<le> base * 60 div 100 \<and> base * 60 div 100 \<le> 100"
proof -
  show "c_div (base * 70) 100 = base * 70 div 100" "c_div (base * 60) 100 = base * 60 div 100"
    using assms by (simp_all add: c_div_nonneg)
  show "0 \<le> base * 70 div 100 \<and> base * 70 div 100 \<le> 100"
    using assms by (intro scaled_range) simp_all
  show "0 \<le> base * 60 div 100 \<and> base * 60 div 100 \<le> 100"
    using assms by (intro scaled_range) simp_all
qed

section \<open>Passwords of two or more characters are read within bounds\<close>

lemma sequential_scan_in_bounds:
  assumes "bound + 2 \<le> length pw"
  shows "\<exists>b. sequential_scan pw bound i = Inr b"
  using assms
proof (induction pw bound i rule: sequential_scan.induct)
  case (1 pw bound i)
  show ?case
  proof (cases "i < bound")
    case False
    then show ?thesis
      by (subst sequential_scan.simps) auto
  next
    case True
    with "1.prems" have rd: "char_at pw i = Inr (pw ! i)" "char_at pw (i + 1) = Inr (pw ! (i + 1))"
      "char_at pw (i + 2) = Inr (pw ! (i + 2))"
      by (simp_all add: char_at_in)
    show ?thesis
    proof (cases "sequential_run (pw ! i) (pw ! (i + 1)) (pw ! (i + 2))")
      case run: True
      then show ?thesis
        using True rd by (subst sequential_scan.simps) auto
    next
      case norun: False
      from "1.IH" [OF True rd(1) rd(2) rd(3) norun "1.prems"]
      show ?thesis
        using True rd norun by (subst sequential_scan.simps) auto
    qed
  qed
qed

lemma repeated_scan_in_bounds:
  assumes "bound + 2 \<le> length pw"
  shows "\<exists>b. repeated_scan pw bound i = Inr b"
  using assms
proof (induction pw bound i rule: repeated_scan.induct)
  case (1 pw bound i)
  show ?case
  proof (cases "i < bound")
    case False
    then show ?thesis
      by (subst repeated_scan.simps) auto
  next
    case True
    with "1.prems" have rd: "char_at pw i = Inr (pw ! i)" "char_at pw (i + 1) = Inr (pw ! (i + 1))"
      "char_at pw (i + 2) = Inr (pw ! (i + 2))"
      by (simp_all add: char_at_in)
    show ?thesis
    proof (cases "pw ! i = pw ! (i + 1)")
      case eq: True
      show ?thesis
      proof (cases "pw ! i = pw ! (i + 2)")
        case True
        then show ?thesis
          using \<open>i < bound\<close> rd eq by (subst repeated_scan.simps) auto
      next
        case neq: False
        from "1.IH"(1) [OF \<open>i < bound\<close> rd(1) rd(2) eq rd(3) neq "1.prems"]
        show ?thesis
          using \<open>i < bound\<close> rd eq neq by (subst repeated_scan.simps) auto
      qed
    next
      case neq: False
      from "1.IH"(2) [OF True rd(1) rd(2) neq "1.prems"]
      show ?thesis
        using True rd neq by (subst repeated_scan.simps) auto
    qed
  qed
qed

lemma check_weak_patterns_in_bounds:
  assumes "2 \<le> length pw"
  shows "\<exists>b. check_weak_patterns (Some pw) = Inr b"
proof -
  have bound: "size_sub (length pw) 2 + 2 \<le> length pw"
    using assms by (simp add: size_sub_def)
  from sequential_scan_in_bounds [OF bound, of 0]
  obtain b1 where b1: "sequential_scan pw (size_sub (length pw) 2) 0 = Inr b1"
    by blast
  from repeated_scan_in_bounds [OF bound, of 0]
  obtain b2 where b2: "repeated_scan pw (size_sub (length pw) 2) 0 = Inr b2"
    by blast
  show ?thesis
    using b1 b2 by (cases b1; cases b2; auto simp: check_weak_patterns_def Let_def)
qed

lemma scan_classes_returns:
  assumes "n \<le> length pw"
  shows "\<exists>v'. scan_classes pw n i v = Inr v'"
  using scan_classes_flags [OF assms, of i v] by (elim exE conjE) (rule exI)

lemma assess_password_security_returns:
  assumes "2 \<le> length pw"
  shows "\<exists>r. assess_password_security mem (Some pw) (length pw) = Inr r"
proof -
  have "length pw \<le> length pw"
    by simp
  from scan_classes_returns [OF this, of 0 no_classes]
  obtain v where v: "scan_classes pw (length pw) 0 no_classes = Inr v" ..
  have "\<exists>base. calculate_strength_score (Some pw) (length pw) = Inr base"
  proof (cases "length pw < 8")
    case True
    then show ?thesis
      by (simp add: calculate_strength_score_def MIN_PASSWORD_LENGTH_def)
  next
    case False
    then have "size_sub (length pw) 1 \<le> length pw"
      by (simp add: size_sub_def)
    from scan_middle_value [OF this, of 1] calculate_strength_score_unfold [OF False v]
    show ?thesis
      by blast
  qed
  then obtain base where base: "calculate_strength_score (Some pw) (length pw) = Inr base"
    by blast
  from v assms have "\<exists>e. calculate_simple_entropy (Some pw) (length pw) = Inr e"
    by (simp add: calculate_simple_entropy_def)
  then obtain e where e: "calculate_simple_entropy (Some pw) (length pw) = Inr e"
    by blast
  from check_weak_patterns_in_bounds [OF assms]
  obtain weak where weak: "check_weak_patterns (Some pw) = Inr weak"
    by blast
  from assms show ?thesis
    by (simp add: assess_password_security_def base e weak Let_def)
qed

section \<open>Two assessed passwords\<close>

lemmas score_eval_defs = calculate_strength_score_def MIN_PASSWORD_LENGTH_def
  length_points_def variety_points_def scan_classes.simps scan_middle.simps char_at_def
  classify_def no_classes_def variety_count_def size_sub_def ctype_defs

lemma strong_example_score: "calculate_strength_score (Some ''Hk2mVb9xGq8n'') 12 = Inr 90"
  by (simp add: score_eval_defs)

lemma strong_example_entropy:
  "calculate_simple_entropy (Some ''Hk2mVb9xGq8n'') 12 = Inr (12 * log2 62)"
  by (simp add: calculate_simple_entropy_def scan_classes.simps char_at_def classify_def
      no_classes_def ctype_defs)

lemma strong_example_weak: "check_weak_patterns (Some ''Hk2mVb9xGq8n'') = Inr False"
  by (simp add: weak_scan_defs ctype_defs)

lemma strong_example_dict: "\<not> check_dictionary_words all_ok (Some ''Hk2mVb9xGq8n'')"
  by (simp add: check_dictionary_words_def dictionary_words_def ctype_defs leet_subst_def
      all_ok_def)

lemma assess_strong_example:
  "assess_password_security all_ok (Some ''Hk2mVb9xGq8n'') 12 =
     Inr \<lparr>score = 90, category = STRENGTH_STRONG, entropy_sa = 12 * log2 62,
          crack_time_seconds = estimate_crack_time (12 * log2 62) GPU_GUESSES_PER_SECOND,
          has_weak_pattern = False, has_dictionary_word = False, is_duplicate = False\<rparr>"
  by (simp add: assess_password_security_def strong_example_score strong_example_entropy
      strong_example_weak strong_example_dict adjusted_score_def category_of_score_def
      c_div_def)

lemma penalised_example_score: "calculate_strength_score (Some ''password123'') 11 = Inr 60"
  by (simp add: score_eval_defs)

lemma penalised_example_entropy:
  "calculate_simple_entropy (Some ''password123'') 11 = Inr (11 * log2 36)"
  by (simp add: calculate_simple_entropy_def scan_classes.simps char_at_def classify_def
      no_classes_def ctype_defs)

lemma penalised_example_weak: "check_weak_patterns (Some ''password123'') = Inr True"
  by (simp add: check_weak_patterns_def weak_patterns_def)

lemma penalised_example_dict: "check_dictionary_words all_ok (Some ''password123'')"
  by (simp add: check_dictionary_words_def dictionary_words_def ctype_defs)

lemma assess_penalised_example:
  "assess_password_security all_ok (Some ''password123'') 11 =
     Inr \<lparr>score = 25, category = STRENGTH_WEAK, entropy_sa = 11 * log2 36,
          crack_time_seconds = estimate_crack_time (11 * log2 36) GPU_GUESSES_PER_SECOND,
          has_weak_pattern = True, has_dictionary_word = True, is_duplicate = False\<rparr>"
  by (simp add: assess_password_security_def penalised_example_score penalised_example_entropy
      penalised_example_weak penalised_example_dict adjusted_score_def category_of_score_def
      c_div_def)

section \<open>Claims about the security assessment\<close>

text \<open>
  Claim C9. Every index read by \<open>check_weak_patterns\<close> should lie within the string.
  The bound of the two scan loops is \<^verbatim>\<open>pass_len - 2\<close> in \<^verbatim>\<open>size_t\<close>: for a password of
  length 1 it wraps to \<open>2^64 - 1\<close>, the loop is entered, and its first round reads
  \<^verbatim>\<open>password[2]\<close>, one past the terminator. The same happens for the empty string, and a
  one-character password reaches the function through \<open>assess_password_security\<close>.
\<close>

theorem weak_pattern_scan_reads_past_end:
  "size_sub (length ''a'') 2 = 2 ^ 64 - 1 \<and>
   check_weak_patterns (Some ''a'') = Inl ReadOutOfBounds \<and>
   check_weak_patterns (Some []) = Inl ReadOutOfBounds \<and>
   assess_password_security all_ok (Some ''a'') 1 = Inl ReadOutOfBounds"
proof -
  have b: "size_sub (length ''a'') 2 = 2 ^ 64 - 1"
    by (simp add: size_sub_def SIZE_MOD_def)
  have one: "check_weak_patterns (Some ''a'') = Inl ReadOutOfBounds"
    by (simp add: weak_scan_defs)
  have none: "check_weak_patterns (Some []) = Inl ReadOutOfBounds"
    by (simp add: weak_scan_defs)
  have s: "calculate_strength_score (Some ''a'') 1 = Inr 0"
    by (simp add: calculate_strength_score_def MIN_PASSWORD_LENGTH_def)
  have "scan_classes ''a'' 1 0 no_classes = Inr (classify (CHR ''a'') no_classes)"
    by (simp add: scan_classes.simps char_at_def)
  then have "\<exists>e. calculate_simple_entropy (Some ''a'') 1 = Inr e"
    by (simp add: calculate_simple_entropy_def)
  with s one have "assess_password_security all_ok (Some ''a'') 1 = Inl ReadOutOfBounds"
    by (auto simp: assess_password_security_def)
  with b one none show ?thesis
    by simp
qed

text \<open>
  Claim C10. \<open>check_dictionary_words\<close> depends only on the first 255 characters of the
  password, whether or not the copy for the leet speak pass can be allocated. So
  \<open>password\<close> is found on its own and is not found behind 255 other characters.
\<close>

theorem dictionary_check_reads_prefix:
  "check_dictionary_words mem (Some pw) = check_dictionary_words mem (Some (take 255 pw)) \<and>
   check_dictionary_words mem (Some ''password'') \<and>
   \<not> check_dictionary_words mem (Some (replicate 255 (CHR ''x'') @ ''password''))"
proof (intro conjI)
  show eq: "check_dictionary_words mem (Some pw) = check_dictionary_words mem (Some (take 255 pw))"
    for pw
    unfolding check_dictionary_words_def option.case Let_def take_cut ..
  show "check_dictionary_words mem (Some ''password'')"
    by (simp add: check_dictionary_words_def dictionary_words_def ctype_defs)
  have "map leet_subst (replicate 255 (CHR ''x'')) = replicate 255 (CHR ''x'')"
    "map tolower (replicate 255 (CHR ''x'')) = replicate 255 (CHR ''x'')"
    by (simp_all add: leet_subst_def ctype_defs)
  then have "\<not> check_dictionary_words mem (Some (replicate 255 (CHR ''x'')))"
    using no_word_in_x by (simp add: check_dictionary_words_def)
  then show "\<not> check_dictionary_words mem (Some (replicate 255 (CHR ''x'') @ ''password''))"
    using eq [of "replicate 255 (CHR ''x'') @ ''password''"] by simp
qed

text \<open>
  Claim C8. Called with the length of the password, \<open>calculate_strength_score\<close> returns
  0 below eight characters, and otherwise the sum, capped at 100, of the length tier, ten
  points per character class present (lowercase, uppercase, digit, other), ten points if
  a non-alphabetic character stands strictly between the first and the last position, and
  ten points if lowercase, uppercase and digit are all present. Eight lowercase letters
  score exactly 30.
\<close>

theorem calculate_strength_score_value:
  "calculate_strength_score (Some pw) (length pw) =
     Inr (if length pw < 8 then 0
          else min 100
            ((if length pw \<ge> 12 then 40 else if length pw \<ge> 10 then 30 else 20) +
             10 * (of_bool (\<exists>c \<in> set pw. islower c) + of_bool (\<exists>c \<in> set pw. isupper c) +
                   of_bool (\<exists>c \<in> set pw. isdigit c) +
                   of_bool (\<exists>c \<in> set pw. \<not> islower c \<and> \<not> isupper c \<and> \<not> isdigit c)) +
             (if \<exists>i. 0 < i \<and> i < length pw - 1 \<and> \<not> isalpha (pw ! i) then 10 else 0) +
             (if (\<exists>c \<in> set pw. islower c) \<and> (\<exists>c \<in> set pw. isupper c) \<and>
                 (\<exists>c \<in> set pw. isdigit c) then 10 else 0))) \<and>
   (length pw = 8 \<and> (\<forall>c \<in> set pw. islower c) \<longrightarrow>
      calculate_strength_score (Some pw) (length pw) = Inr 30)"
proof -
  let ?L = "\<exists>c \<in> set pw. islower c" and ?U = "\<exists>c \<in> set pw. isupper c"
    and ?D = "\<exists>c \<in> set pw. isdigit c"
    and ?S = "\<exists>c \<in> set pw. \<not> islower c \<and> \<not> isupper c \<and> \<not> isdigit c"
    and ?M = "\<exists>i. 0 < i \<and> i < length pw - 1 \<and> \<not> isalpha (pw ! i)"
  let ?s0 = "if length pw \<ge> 12 then 40 else if length pw \<ge> 10 then 30 else (20::int)"
  have main: "calculate_strength_score (Some pw) (length pw) =
     Inr (if length pw < 8 then 0
          else min 100 (?s0 + 10 * (of_bool ?L + of_bool ?U + of_bool ?D + of_bool ?S) +
             (if ?M then 10 else 0) + (if ?L \<and> ?U \<and> ?D then 10 else 0)))"
  proof (cases "length pw < 8")
    case True
    then show ?thesis
      by (simp add: calculate_strength_score_def MIN_PASSWORD_LENGTH_def)
  next
    case False
    have "length pw \<le> length pw"
      by simp
    from scan_classes_flags [OF this, of 0 no_classes]
    obtain v where v: "scan_classes pw (length pw) 0 no_classes = Inr v"
      and raw: "has_lower v \<longleftrightarrow> has_lower no_classes \<or>
                  (\<exists>j. 0 \<le> j \<and> j < length pw \<and> islower (pw ! j))"
        "has_upper v \<longleftrightarrow> has_upper no_classes \<or>
                  (\<exists>j. 0 \<le> j \<and> j < length pw \<and> isupper (pw ! j))"
        "has_digit v \<longleftrightarrow> has_digit no_classes \<or>
                  (\<exists>j. 0 \<le> j \<and> j < length pw \<and> isdigit (pw ! j))"
        "has_special v \<longleftrightarrow> has_special no_classes \<or>
                  (\<exists>j. 0 \<le> j \<and> j < length pw \<and>
                       \<not> islower (pw ! j) \<and> \<not> isupper (pw ! j) \<and> \<not> isdigit (pw ! j))"
      by (elim exE conjE) (rule that, assumption+)
    have flags: "has_lower v \<longleftrightarrow> ?L" "has_upper v \<longleftrightarrow> ?U" "has_digit v \<longleftrightarrow> ?D"
        "has_special v \<longleftrightarrow> ?S"
      using raw(1) ex_index_set [of pw islower]
        raw(2) ex_index_set [of pw isupper]
        raw(3) ex_index_set [of pw isdigit]
        raw(4) ex_index_set [of pw "\<lambda>c. \<not> islower c \<and> \<not> isupper c \<and> \<not> isdigit c"]
      by (simp_all add: no_classes_def)
    have bound: "size_sub (length pw) 1 = length pw - 1"
      using False by (simp add: size_sub_def)
    have "(\<exists>j. 1 \<le> j \<and> j < length pw - 1 \<and> \<not> isalpha (pw ! j)) \<longleftrightarrow> ?M"
      by (simp add: Suc_le_eq)
    with scan_middle_value [of "length pw - 1" pw 1]
    have m: "scan_middle pw (size_sub (length pw) 1) 1 = Inr ?M"
      unfolding bound by simp
    have lt: "(length pw < 8) = False"
      using False by simp
    show ?thesis
      by (simp only: calculate_strength_score_unfold [OF False v m] lt if_False
          length_points_value [OF False] variety_points_value flags)
  qed
  have "calculate_strength_score (Some pw) (length pw) = Inr 30"
    if eight: "length pw = 8" and low: "\<forall>c \<in> set pw. islower c"
  proof -
    from eight have ne: "pw \<noteq> []" by auto
    then obtain c where c: "c \<in> set pw" by (cases pw) auto
    with low have L: ?L by blast
    from low class_disjoint have U: "\<not> ?U" and D: "\<not> ?D" and S: "\<not> ?S"
      by blast+
    have "\<not> ?M"
    proof
      assume ?M
      then obtain i where i: "i < length pw - 1" "\<not> isalpha (pw ! i)"
        by blast
      then have "pw ! i \<in> set pw"
        by simp
      with low i(2) show False
        by (auto simp: isalpha_def)
    qed
    with L U D S eight show ?thesis
      unfolding main by simp
  qed
  with main show ?thesis
    by blast
qed

theorem calculate_strength_score_value_witness:
  "calculate_strength_score (Some ''qmzpwkfh'') 8 = Inr 30 \<and>
   calculate_strength_score (Some ''Hk2mVb9xGq8n'') 12 = Inr 90 \<and>
   calculate_strength_score (Some ''Ab1!xyz'') 7 = Inr 0"
proof -
  have l: "length ''qmzpwkfh'' = 8" "length ''Hk2mVb9xGq8n'' = 12" "length ''Ab1!xyz'' = 7"
    by simp_all
  have a: "length ''qmzpwkfh'' = 8 \<and> (\<forall>c \<in> set ''qmzpwkfh''. islower c)"
    by (simp add: islower_def)
  from calculate_strength_score_value [of "''qmzpwkfh''", THEN conjunct2] a
  have "calculate_strength_score (Some ''qmzpwkfh'') (length ''qmzpwkfh'') = Inr 30"
    by (rule mp)
  then have w1: "calculate_strength_score (Some ''qmzpwkfh'') 8 = Inr 30"
    unfolding l .
  have L: "\<exists>c \<in> set ''Hk2mVb9xGq8n''. islower c"
    and U: "\<exists>c \<in> set ''Hk2mVb9xGq8n''. isupper c"
    and D: "\<exists>c \<in> set ''Hk2mVb9xGq8n''. isdigit c"
    and S: "\<not> (\<exists>c \<in> set ''Hk2mVb9xGq8n''. \<not> islower c \<and> \<not> isupper c \<and> \<not> isdigit c)"
    by (simp_all add: islower_def isupper_def isdigit_def)
  have M: "\<exists>i. 0 < i \<and> i < 12 - 1 \<and> \<not> isalpha (''Hk2mVb9xGq8n'' ! i)"
    by (rule exI [of _ 2]) (simp add: isalpha_def islower_def isupper_def)
  have w2: "calculate_strength_score (Some ''Hk2mVb9xGq8n'') 12 = Inr 90"
    using calculate_strength_score_value [of "''Hk2mVb9xGq8n''", THEN conjunct1]
    unfolding of_bool_eq_1_iff [THEN iffD2, OF L]
      of_bool_eq_1_iff [THEN iffD2, OF U] of_bool_eq_1_iff [THEN iffD2, OF D]
      of_bool_eq_0_iff [THEN iffD2, OF S] l if_P [OF M]
    using L U D by simp
  have w3: "calculate_strength_score (Some ''Ab1!xyz'') 7 = Inr 0"
    using calculate_strength_score_value [of "''Ab1!xyz''", THEN conjunct1]
    unfolding l by simp
  from w1 w2 w3 show ?thesis
    by (intro conjI)
qed

text \<open>
  Claim C4, as the code has it. Whenever \<open>assess_password_security\<close> returns an
  assessment, its score is the base score of \<open>calculate_strength_score\<close>, multiplied by
  70/100 (rounded down) if a weak pattern was found, then multiplied by 60/100 (rounded
  down) if a dictionary word was found, and clamped to [0,100]. The category is the
  adjusted score divided by 20 and capped: Very Weak below 20, Weak below 40, Fair below
  60, Good below 80, Strong below 100, Very Strong at 100. For a non-zero length the two
  flags are the results of \<open>check_weak_patterns\<close> and \<open>check_dictionary_words\<close>.
\<close>

theorem assess_adjusts_score:
  assumes "assess_password_security mem (Some pw) n = Inr r"
  shows "\<exists>base. calculate_strength_score (Some pw) n = Inr base \<and>
     score r =
       max 0 (min 100
         (if has_dictionary_word r
          then (if has_weak_pattern r then base * 70 div 100 else base) * 60 div 100
          else (if has_weak_pattern r then base * 70 div 100 else base))) \<and>
     category r =
       (if score r < 20 then STRENGTH_VERY_WEAK
        else if score r < 40 then STRENGTH_WEAK
        else if score r < 60 then STRENGTH_FAIR
        else if score r < 80 then STRENGTH_GOOD
        else if score r < 100 then STRENGTH_STRONG
        else STRENGTH_VERY_STRONG) \<and>
     (n \<noteq> 0 \<longrightarrow> check_weak_patterns (Some pw) = Inr (has_weak_pattern r) \<and>
        has_dictionary_word r = check_dictionary_words mem (Some pw))"
proof (cases "n = 0")
  case True
  with assms have r: "r = security_assessment_init"
    by (simp add: assess_password_security_def)
  have "calculate_strength_score (Some pw) n = Inr 0"
    using True by (simp add: calculate_strength_score_def MIN_PASSWORD_LENGTH_def)
  then show ?thesis
    using True by (simp add: r security_assessment_init_def)
next
  case False
  from assms False obtain base where base: "calculate_strength_score (Some pw) n = Inr base"
    by (cases "calculate_strength_score (Some pw) n")
      (simp_all add: assess_password_security_def)
  from assms False base obtain e where e: "calculate_simple_entropy (Some pw) n = Inr e"
    by (cases "calculate_simple_entropy (Some pw) n")
      (simp_all add: assess_password_security_def)
  from assms False base e obtain weak where weak: "check_weak_patterns (Some pw) = Inr weak"
    by (cases "check_weak_patterns (Some pw)")
      (simp_all add: assess_password_security_def)
  define dict where "dict = check_dictionary_words mem (Some pw)"
  define s1 where "s1 = (if weak then base * 70 div 100 else base)"
  define s2 where "s2 = (if dict then s1 * 60 div 100 else s1)"
  from calculate_strength_score_range [OF base] have b: "0 \<le> base" "base \<le> 100"
    by simp_all
  have r1: "0 \<le> s1 \<and> s1 \<le> 100"
    using b penalty_range(2) [OF b] by (simp add: s1_def)
  then have s1b: "0 \<le> s1" "s1 \<le> 100"
    by simp_all
  have r2: "0 \<le> s2 \<and> s2 \<le> 100"
    using r1 penalty_range(4) [OF s1b] by (simp add: s2_def)
  have c1: "(if weak then c_div (base * 70) 100 else base) = s1"
    using penalty_range(1) [OF b] by (simp add: s1_def)
  have c2: "(if dict then c_div (s1 * 60) 100 else s1) = s2"
    using penalty_range(3) [OF s1b] by (simp add: s2_def)
  have c3: "(if s2 < 0 then 0 else s2) = s2" "(if s2 > 100 then 100 else s2) = s2"
    using r2 by simp_all
  have adj: "adjusted_score base weak dict = s2"
    by (simp only: adjusted_score_def Let_def c1 c2 c3)
  have r: "r = \<lparr>score = s2, category = category_of_score s2, entropy_sa = e,
                 crack_time_seconds = estimate_crack_time e GPU_GUESSES_PER_SECOND,
                 has_weak_pattern = weak, has_dictionary_word = dict,
                 is_duplicate = False\<rparr>"
    using assms False
    by (simp add: assess_password_security_def base e weak dict_def [symmetric] Let_def adj)
  have sc: "score r = s2" and hw: "has_weak_pattern r = weak"
    and hd: "has_dictionary_word r = dict" and cat: "category r = category_of_score s2"
    by (simp_all add: r)
  have clamp: "max 0 (min 100 s2) = s2"
    using r2 by simp
  have "score r = max 0 (min 100
         (if has_dictionary_word r
          then (if has_weak_pattern r then base * 70 div 100 else base) * 60 div 100
          else (if has_weak_pattern r then base * 70 div 100 else base)))"
    unfolding sc hw hd s1_def [symmetric] s2_def [symmetric] clamp ..
  moreover have "category r =
       (if score r < 20 then STRENGTH_VERY_WEAK
        else if score r < 40 then STRENGTH_WEAK
        else if score r < 60 then STRENGTH_FAIR
        else if score r < 80 then STRENGTH_GOOD
        else if score r < 100 then STRENGTH_STRONG
        else STRENGTH_VERY_STRONG)"
    unfolding sc cat using r2 by (intro category_of_score_thresholds) simp_all
  moreover have "check_weak_patterns (Some pw) = Inr (has_weak_pattern r)"
    "has_dictionary_word r = check_dictionary_words mem (Some pw)"
    by (simp_all add: hw hd weak dict_def)
  ultimately show ?thesis
    using base by blast
qed

theorem assess_adjusts_score_witness:
  "assess_password_security all_ok (Some ''password123'') 11 =
     Inr \<lparr>score = 25, category = STRENGTH_WEAK, entropy_sa = 11 * log2 36,
          crack_time_seconds = estimate_crack_time (11 * log2 36) GPU_GUESSES_PER_SECOND,
          has_weak_pattern = True, has_dictionary_word = True, is_duplicate = False\<rparr> \<and>
   calculate_strength_score (Some ''password123'') 11 = Inr 60 \<and>
   (25::int) = max 0 (min 100 (60 * 70 div 100 * 60 div 100))"
proof -
  let ?R = "\<lparr>score = 25, category = STRENGTH_WEAK, entropy_sa = 11 * log2 36,
          crack_time_seconds = estimate_crack_time (11 * log2 36) GPU_GUESSES_PER_SECOND,
          has_weak_pattern = True, has_dictionary_word = True, is_duplicate = False\<rparr>"
  have e: "assess_password_security all_ok (Some ''password123'') 11 = Inr ?R"
    by (rule assess_penalised_example)
  from assess_adjusts_score [OF e]
  obtain base where bs: "calculate_strength_score (Some ''password123'') 11 = Inr base"
    and sc: "score ?R =
       max 0 (min 100
         (if has_dictionary_word ?R
          then (if has_weak_pattern ?R then base * 70 div 100 else base) * 60 div 100
          else (if has_weak_pattern ?R then base * 70 div 100 else base)))"
    by (elim exE conjE) (rule that, assumption+)
  from bs have base: "base = 60"
    by (simp add: penalised_example_score)
  from sc have three: "(25::int) = max 0 (min 100 (60 * 70 div 100 * 60 div 100))"
    unfolding base by simp
  from bs have two: "calculate_strength_score (Some ''password123'') 11 = Inr 60"
    unfolding base .
  from e two three show ?thesis
    by (intro conjI)
qed

text \<open>
  Claim C4, as stated, says that the category follows the thresholds of the generation
  table (\<open>get_strength_category\<close>: Good below 75, Strong below 90). The password
  \<open>Hk2mVb9xGq8n\<close> has no weak pattern and no dictionary word and scores 90: the
  assessment files it under Strong, the generation table under Very Strong.
\<close>

theorem assessment_category_differs_from_generation_table:
  "assess_password_security all_ok (Some ''Hk2mVb9xGq8n'') 12 =
     Inr \<lparr>score = 90, category = STRENGTH_STRONG, entropy_sa = 12 * log2 62,
          crack_time_seconds = estimate_crack_time (12 * log2 62) GPU_GUESSES_PER_SECOND,
          has_weak_pattern = False, has_dictionary_word = False, is_duplicate = False\<rparr> \<and>
   get_strength_string STRENGTH_STRONG = ''Strong'' \<and>
   get_strength_category 90 = ''Very Strong''"
  by (simp add: assess_strong_example get_strength_category_def
      STRENGTH_THRESHOLD_VERY_WEAK_def STRENGTH_THRESHOLD_WEAK_def STRENGTH_THRESHOLD_FAIR_def
      STRENGTH_THRESHOLD_GOOD_def STRENGTH_THRESHOLD_STRONG_def)

end
